theory Spec2Isabelle
  imports Main "HOL-Library.Sublist"
begin

section \<open>Python strings\<close>

text \<open>
  \<^verbatim>\<open>str.replace(old, new)\<close> scans the string from the left and replaces every
  non-overlapping occurrence of \<open>old\<close>; the scan resumes behind the occurrence, so the
  inserted text is never looked at again by the same call. \<open>replace_scan\<close> is that scan
  for a non-empty \<open>old\<close>. For the empty \<open>old\<close> Python inserts \<open>new\<close> in front of
  every character and at the end.
\<close>

fun replace_scan :: "string \<Rightarrow> string \<Rightarrow> string \<Rightarrow> string" where
  "replace_scan old new [] = []"
| "replace_scan old new (c # cs) =
     (if prefix old (c # cs) then new @ replace_scan old new (drop (length old - 1) cs)
      else c # replace_scan old new cs)"

definition str_replace :: "string \<Rightarrow> string \<Rightarrow> string \<Rightarrow> string" where
  "str_replace s old new =
     (if old = [] then new @ concat (map (\<lambda>c. c # new) s) else replace_scan old new s)"

text \<open>\<^verbatim>\<open>sep.join(strings)\<close> on a list of strings.\<close>

fun join_strs :: "string \<Rightarrow> string list \<Rightarrow> string" where
  "join_strs sep [] = []"
| "join_strs sep [x] = x"
| "join_strs sep (x # y # ys) = x @ sep @ join_strs sep (y # ys)"

definition startswith :: "string \<Rightarrow> string \<Rightarrow> bool" where
  "startswith s pre = (take (length pre) s = pre)"

definition endswith :: "string \<Rightarrow> string \<Rightarrow> bool" where
  "endswith s suf = (length suf \<le> length s \<and> drop (length s - length suf) s = suf)"

section \<open>Template rendering\<close>

text \<open>
  An override map is a Python dict; \<^verbatim>\<open>overrides.items()\<close> iterates in insertion order,
  so the map is the list of its items. The loop
  \<^verbatim>\<open>for k, v in overrides.items(): tmpl_contents = tmpl_contents.replace(k, v)\<close>
  of \<open>gen_driver\<close> is \<open>apply_overrides\<close>.
\<close>

type_synonym overrides = "(string \<times> string) list"

fun apply_overrides :: "overrides \<Rightarrow> string \<Rightarrow> string" where
  "apply_overrides [] tmpl_contents = tmpl_contents"
| "apply_overrides ((k, v) # kvs) tmpl_contents =
     apply_overrides kvs (str_replace tmpl_contents k v)"

text \<open>
  The specification's reference semantics, written from its words: collect all tokens,
  scan the template once, replace each match by the value looked up at match time, and
  never scan inserted text again. Where several keys match at one position the first of
  the map is taken; an empty key is no token.
\<close>

fun single_pass :: "overrides \<Rightarrow> string \<Rightarrow> string" where
  "single_pass m [] = []"
| "single_pass m (c # cs) =
     (case find (\<lambda>(k, v). k \<noteq> [] \<and> prefix k (c # cs)) m of
        Some (k, v) \<Rightarrow> v @ single_pass m (drop (length k - 1) cs)
      | None \<Rightarrow> c # single_pass m cs)"

section \<open>Files, errors and effects\<close>

text \<open>
  A path is the list of its components; \<^verbatim>\<open>os.path.join(p, name)\<close> appends a component.
  The file system maps the paths that exist to a directory or to a file with its text
  (files are opened in text mode, so the contents are strings). The association list keeps
  one entry per path.
\<close>

type_synonym path = "string list"

datatype node = File string | Dir

type_synonym filesystem = "(path \<times> node) list"

datatype py_error =
    FileNotFoundError path
  | NotADirectoryError path
  | IsADirectoryError path
  | FileExistsError path
  | TypeError nat
  | CalledProcessError int string

text \<open>What \<^verbatim>\<open>os.scandir\<close> yields: the entry's name, its path, and what \<open>is_file()\<close> says.\<close>

record dir_entry =
  de_name :: string
  de_path :: path
  de_is_file :: bool

text \<open>The effects a run leaves behind, in the order they happen.\<close>

datatype event =
    Wrote path string
  | Printed string
  | Ran string
  | Globbed path

record world =
  files :: filesystem
  events :: "event list"

type_synonym 'a io = "world \<Rightarrow> (py_error + 'a) \<times> world"

definition io_return :: "'a \<Rightarrow> 'a io" where
  "io_return x w = (Inr x, w)"

definition io_raise :: "py_error \<Rightarrow> 'a io" where
  "io_raise e w = (Inl e, w)"

definition io_bind :: "'a io \<Rightarrow> ('a \<Rightarrow> 'b io) \<Rightarrow> 'b io" where
  "io_bind m f w = (case m w of (Inl e, w') \<Rightarrow> (Inl e, w') | (Inr x, w') \<Rightarrow> f x w')"

definition node_at :: "filesystem \<Rightarrow> path \<Rightarrow> node option" where
  "node_at fs p = (if p = [] then Some Dir else map_of fs p)"

text \<open>
  Path resolution walks the components from the root: a missing component is
  \<open>FileNotFoundError\<close>, a file in the place of a directory is \<open>NotADirectoryError\<close>.
\<close>

fun resolve_from :: "filesystem \<Rightarrow> path \<Rightarrow> path \<Rightarrow> path \<Rightarrow> py_error + node" where
  "resolve_from fs whole cur rest =
     (case node_at fs cur of
        None \<Rightarrow> Inl (FileNotFoundError whole)
      | Some (File c) \<Rightarrow> (if rest = [] then Inr (File c) else Inl (NotADirectoryError whole))
      | Some Dir \<Rightarrow>
          (case rest of [] \<Rightarrow> Inr Dir | x # xs \<Rightarrow> resolve_from fs whole (cur @ [x]) xs))"

definition resolve :: "filesystem \<Rightarrow> path \<Rightarrow> py_error + node" where
  "resolve fs p = resolve_from fs p [] p"

definition fs_put :: "filesystem \<Rightarrow> path \<Rightarrow> node \<Rightarrow> filesystem" where
  "fs_put fs p n = (p, n) # filter (\<lambda>(q, _). q \<noteq> p) fs"

text \<open>
  \<^verbatim>\<open>Path(p).mkdir(parents=True, exist_ok=True)\<close>: every missing component is created;
  the ancestors created before a failure stay.
\<close>

fun mkdir_from :: "path \<Rightarrow> path \<Rightarrow> filesystem \<Rightarrow> py_error option \<times> filesystem" where
  "mkdir_from cur [] fs = (None, fs)"
| "mkdir_from cur (x # xs) fs =
     (case node_at fs (cur @ [x]) of
        None \<Rightarrow> mkdir_from (cur @ [x]) xs (fs_put fs (cur @ [x]) Dir)
      | Some Dir \<Rightarrow> mkdir_from (cur @ [x]) xs fs
      | Some (File c) \<Rightarrow>
          (Some (if xs = [] then FileExistsError (cur @ [x]) else NotADirectoryError (cur @ x # xs)), fs))"

definition py_mkdir :: "path \<Rightarrow> unit io" where
  "py_mkdir p w =
     (case mkdir_from [] p (files w) of
        (None, fs') \<Rightarrow> (Inr (), w\<lparr>files := fs'\<rparr>)
      | (Some e, fs') \<Rightarrow> (Inl e, w\<lparr>files := fs'\<rparr>))"

definition children :: "filesystem \<Rightarrow> path \<Rightarrow> dir_entry list" where
  "children fs p =
     map (\<lambda>(q, n). \<lparr>de_name = last q, de_path = q, de_is_file = (n \<noteq> Dir)\<rparr>)
       (filter (\<lambda>(q, n). q \<noteq> [] \<and> butlast q = p) fs)"

definition scandir :: "path \<Rightarrow> dir_entry list io" where
  "scandir p w =
     (case resolve (files w) p of
        Inl e \<Rightarrow> (Inl e, w)
      | Inr (File c) \<Rightarrow> (Inl (NotADirectoryError p), w)
      | Inr Dir \<Rightarrow> (Inr (children (files w) p), w))"

definition read_text :: "path \<Rightarrow> string io" where
  "read_text p w =
     (case resolve (files w) p of
        Inl e \<Rightarrow> (Inl e, w)
      | Inr Dir \<Rightarrow> (Inl (IsADirectoryError p), w)
      | Inr (File c) \<Rightarrow> (Inr c, w))"

text \<open>\<^verbatim>\<open>open(p, "w")\<close> and \<open>write\<close>: the parent has to be a directory, the file is replaced.\<close>

definition write_text :: "path \<Rightarrow> string \<Rightarrow> unit io" where
  "write_text p c w =
     (if p = [] then (Inl (IsADirectoryError p), w)
      else case resolve (files w) (butlast p) of
        Inl (FileNotFoundError q) \<Rightarrow> (Inl (FileNotFoundError p), w)
      | Inl e \<Rightarrow> (Inl (NotADirectoryError p), w)
      | Inr (File c') \<Rightarrow> (Inl (NotADirectoryError p), w)
      | Inr Dir \<Rightarrow>
          (if node_at (files w) p = Some Dir then (Inl (IsADirectoryError p), w)
           else (Inr (), \<lparr>files = fs_put (files w) p (File c), events = events w @ [Wrote p c]\<rparr>)))"

definition py_print :: "string \<Rightarrow> unit io" where
  "py_print s w = (Inr (), w\<lparr>events := events w @ [Printed s]\<rparr>)"

definition loginfo :: "string \<Rightarrow> unit io" where
  "loginfo s = py_print (CHR 0x1B # ''[96m'' @ s @ CHR 0x1B # ''[0m'')"

definition rmtree :: "path \<Rightarrow> filesystem \<Rightarrow> filesystem" where
  "rmtree p fs = filter (\<lambda>(q, n). \<not> prefix p q) fs"

definition path_str :: "path \<Rightarrow> string" where
  "path_str p = join_strs ''/'' p"

section \<open>Discovery\<close>

text \<open>
  What the script takes from its surroundings: \<^verbatim>\<open>PROJECT_ROOT\<close>, the names
  \<^verbatim>\<open>tempfile\<close> tries for a temporary directory, and the shell that runs a command line
  (its exit status and what it does to the files).
\<close>

record env =
  project_root :: path
  tmp_candidates :: "path list"
  shell :: "string \<Rightarrow> filesystem \<Rightarrow> int \<times> filesystem"

definition SCENARIO_DIR :: "env \<Rightarrow> path" where
  "SCENARIO_DIR e = project_root e @ [''hstream-kafka'', ''scenarios'']"

definition get_scenarios :: "env \<Rightarrow> string list io" where
  "get_scenarios e =
     io_bind (scandir (SCENARIO_DIR e))
       (\<lambda>xs. io_return (map de_name (filter (\<lambda>x. \<not> de_is_file x) xs)))"

definition get_driver_tmpls :: "env \<Rightarrow> string \<Rightarrow> dir_entry list io" where
  "get_driver_tmpls e scenario =
     (let scenario_dir = SCENARIO_DIR e @ [scenario];
          driver_tmpl_dir = scenario_dir @ [''driver-tmpls'']
      in io_bind (scandir driver_tmpl_dir) (\<lambda>xs. io_return (filter de_is_file xs)))"

definition get_workloads :: "env \<Rightarrow> string \<Rightarrow> dir_entry list io" where
  "get_workloads e scenario =
     (let scenario_dir = SCENARIO_DIR e @ [scenario];
          workloads_dir = scenario_dir @ [''workloads'']
      in io_bind (scandir workloads_dir) (\<lambda>xs. io_return (filter de_is_file xs)))"

text \<open>
  \<^verbatim>\<open>glob.glob(os.path.join(result_dir, "*.json"), recursive=False)\<close>, for a
  \<open>result_dir\<close> without the pattern characters \<^verbatim>\<open>*\<close>, \<^verbatim>\<open>?\<close> and \<^verbatim>\<open>[\<close>: glob lists the
  directory (an unreadable or missing one lists as empty), drops the names that start with
  a dot because the pattern does not, and keeps the names that match \<^verbatim>\<open>*.json\<close>, whatever
  kind of entry they name.
\<close>

definition has_magic :: "path \<Rightarrow> bool" where
  "has_magic p = (\<exists>c \<in> set (concat p). c \<in> set ''*?['')"

definition fnmatch_json :: "string \<Rightarrow> bool" where
  "fnmatch_json name = endswith name ''.json''"

definition glob_json :: "path \<Rightarrow> path list io" where
  "glob_json dirname w =
     (let names = (case scandir dirname w of (Inr xs, w') \<Rightarrow> map de_name xs | (Inl e, w') \<Rightarrow> [])
      in (Inr (map (\<lambda>n. dirname @ [n])
                (filter fnmatch_json (filter (\<lambda>n. \<not> startswith n ''.'') names))),
          w\<lparr>events := events w @ [Globbed dirname]\<rparr>))"

definition get_results :: "path \<Rightarrow> path list io" where
  "get_results result_dir = glob_json result_dir"

section \<open>Rendering the drivers\<close>

fun gen_driver :: "path \<Rightarrow> overrides \<Rightarrow> dir_entry list \<Rightarrow> path list io" where
  "gen_driver driver_dir ovr [] = io_return []"
| "gen_driver driver_dir ovr (driver_tmpl # rest) =
     io_bind (read_text (de_path driver_tmpl)) (\<lambda>tmpl_contents.
     io_bind (write_text (driver_dir @ [de_name driver_tmpl]) (apply_overrides ovr tmpl_contents)) (\<lambda>_.
     io_bind (gen_driver driver_dir ovr rest) (\<lambda>paths.
     io_return ((driver_dir @ [de_name driver_tmpl]) # paths))))"

definition setup_drivers :: "dir_entry list \<Rightarrow> string \<Rightarrow> path \<Rightarrow> overrides \<Rightarrow> path list io" where
  "setup_drivers driver_tmpls scenario gen_dir ovr =
     (let driver_dir = gen_dir @ [scenario, ''drivers'']
      in io_bind (py_mkdir driver_dir) (\<lambda>_. gen_driver driver_dir ovr driver_tmpls))"

section \<open>The run\<close>

text \<open>
  The parsed command line. A flag with \<^verbatim>\<open>nargs="*"\<close> that is not given is \<open>None\<close>; given
  without a name it is the empty list.
\<close>

record args =
  arg_kafka :: string
  arg_hstream :: string
  arg_scenario :: "string list option"
  arg_driver :: "string list option"
  arg_workload :: "string list option"
  arg_result_dir :: path

text \<open>
  Python takes \<open>None\<close> and the empty list for false: \<^verbatim>\<open>if args["driver"]:\<close> holds for
  a list with at least one name.
\<close>

definition kafka_driver_overrides :: "args \<Rightarrow> overrides" where
  "kafka_driver_overrides a =
     [(''__NAME__'', ''kafka''), (''__BOOTSTRAP_SERVERS__'', arg_kafka a)]"

definition hstream_driver_overrides :: "args \<Rightarrow> overrides" where
  "hstream_driver_overrides a =
     [(''__NAME__'', ''hstream-kafka''), (''__BOOTSTRAP_SERVERS__'', arg_hstream a)]"

text \<open>
  \<^verbatim>\<open>[d for d in entries if d.name in names]\<close> under \<^verbatim>\<open>if names:\<close>, as \<open>main\<close> has it for
  the drivers and for the workloads.
\<close>

definition select_names :: "string list option \<Rightarrow> dir_entry list \<Rightarrow> dir_entry list" where
  "select_names names entries =
     (case names of
        None \<Rightarrow> entries
      | Some ns \<Rightarrow> if ns \<noteq> [] then filter (\<lambda>d. de_name d \<in> set ns) entries else entries)"

text \<open>
  \<^verbatim>\<open>sep.join(items)\<close> on a list of Python objects: an item that is not a \<open>str\<close> raises
  \<open>TypeError\<close> with the index of the first such item.
\<close>

datatype pyobj = PyStr string | PyDirEntry dir_entry

fun is_str :: "pyobj \<Rightarrow> bool" where
  "is_str (PyStr s) = True"
| "is_str (PyDirEntry d) = False"

fun str_of :: "pyobj \<Rightarrow> string" where
  "str_of (PyStr s) = s"
| "str_of (PyDirEntry d) = []"

definition str_join :: "string \<Rightarrow> pyobj list \<Rightarrow> string io" where
  "str_join sep items =
     (if list_all is_str items then io_return (join_strs sep (map str_of items))
      else io_raise (TypeError (length (takeWhile is_str items))))"

text \<open>\<^verbatim>\<open>subprocess.run(cmd, shell=True, check=True)\<close>: returns when the process has ended.\<close>

definition subprocess_run :: "env \<Rightarrow> string \<Rightarrow> unit io" where
  "subprocess_run e cmd w =
     (case shell e cmd (files w) of
        (rc, fs') \<Rightarrow>
          (if rc = 0 then Inr () else Inl (CalledProcessError rc cmd),
           \<lparr>files = fs', events = events w @ [Ran cmd]\<rparr>))"

text \<open>
  The body of the \<^verbatim>\<open>with\<close> block of \<open>main\<close>, for scenario \<open>s\<close> and temporary directory
  \<open>d\<close>, cut into the steps it runs one after the other: the three \<open>mkdir\<close> calls, the
  rendering for both targets, the command line and its execution, and the look for results.
\<close>

definition setup_step :: "args \<Rightarrow> string \<Rightarrow> path \<Rightarrow> path io" where
  "setup_step a s d =
     (let kafka_dir = d @ [''kafka''];
          hstream_dir = d @ [''hstream''];
          out_dir = arg_result_dir a @ [s]
      in
      io_bind (py_mkdir kafka_dir) (\<lambda>_.
      io_bind (py_mkdir hstream_dir) (\<lambda>_.
      io_bind (py_mkdir out_dir) (\<lambda>_.
      io_return out_dir))))"

definition render_step :: "env \<Rightarrow> args \<Rightarrow> string \<Rightarrow> path \<Rightarrow> path list io" where
  "render_step e a s d =
     (let kafka_dir = d @ [''kafka''];
          hstream_dir = d @ [''hstream'']
      in
      io_bind (get_driver_tmpls e s) (\<lambda>all_tmpls.
      let driver_tmpls = select_names (arg_driver a) all_tmpls in
      io_bind (setup_drivers driver_tmpls s kafka_dir (kafka_driver_overrides a)) (\<lambda>kafka_drivers.
      io_bind (setup_drivers driver_tmpls s hstream_dir (hstream_driver_overrides a)) (\<lambda>hstream_drivers.
      io_return (kafka_drivers @ hstream_drivers)))))"

definition build_command :: "env \<Rightarrow> args \<Rightarrow> string \<Rightarrow> path \<Rightarrow> path list \<Rightarrow> string io" where
  "build_command e a s out_dir drivers =
     io_bind (get_workloads e s) (\<lambda>all_workloads.
     let workloads = select_names (arg_workload a) all_workloads in
     io_bind (str_join '','' (map (PyStr \<circ> path_str) drivers)) (\<lambda>cmd_drivers.
     io_bind (str_join '' '' (map PyDirEntry workloads)) (\<lambda>cmd_workloads.
     io_return (''bin/benchmark -d '' @ cmd_drivers @ '' -od '' @ path_str out_dir
                  @ '' '' @ cmd_workloads))))"

definition execute_step :: "env \<Rightarrow> args \<Rightarrow> string \<Rightarrow> path \<Rightarrow> path list \<Rightarrow> unit io" where
  "execute_step e a s out_dir drivers =
     io_bind (build_command e a s out_dir drivers) (\<lambda>bench_cmd.
     io_bind (loginfo (''Run command: '' @ bench_cmd)) (\<lambda>_.
     subprocess_run e bench_cmd))"

definition collect_step :: "path \<Rightarrow> unit io" where
  "collect_step out_dir =
     io_bind (get_results out_dir) (\<lambda>results.
     if results \<noteq> [] then
       loginfo (''Run command: '' @ ''bin/create_charts.py -o '' @ path_str out_dir @ '' -r ''
                  @ join_strs '' '' (map path_str results))
     else io_return ())"

definition scenario_body :: "env \<Rightarrow> args \<Rightarrow> string \<Rightarrow> path \<Rightarrow> unit io" where
  "scenario_body e a s d =
     io_bind (setup_step a s d) (\<lambda>out_dir.
     io_bind (render_step e a s d) (\<lambda>drivers.
     io_bind (execute_step e a s out_dir drivers) (\<lambda>_.
     collect_step out_dir)))"

text \<open>
  \<^verbatim>\<open>with tempfile.TemporaryDirectory() as d:\<close> creates the first candidate that does not
  exist, runs the body, and removes the tree on the way out, whether the body returned or
  raised.
\<close>

definition mkdtemp :: "env \<Rightarrow> path io" where
  "mkdtemp e w =
     (case find (\<lambda>p. p \<noteq> [] \<and> map_of (files w) p = None) (tmp_candidates e) of
        None \<Rightarrow> (Inl (FileExistsError []), w)
      | Some d \<Rightarrow> (Inr d, w\<lparr>files := fs_put (files w) d Dir\<rparr>))"

definition cleanup :: "path \<Rightarrow> world \<Rightarrow> world" where
  "cleanup d w = w\<lparr>files := rmtree d (files w)\<rparr>"

definition with_tmpdir :: "env \<Rightarrow> (path \<Rightarrow> 'a io) \<Rightarrow> 'a io" where
  "with_tmpdir e body w =
     (case mkdtemp e w of
        (Inl err, w') \<Rightarrow> (Inl err, w')
      | (Inr d, w') \<Rightarrow> (case body d w' of (r, w'') \<Rightarrow> (r, cleanup d w'')))"

definition scenario_iteration :: "env \<Rightarrow> args \<Rightarrow> string \<Rightarrow> unit io" where
  "scenario_iteration e a s = with_tmpdir e (scenario_body e a s)"

fun run_scenarios :: "env \<Rightarrow> args \<Rightarrow> string list \<Rightarrow> unit io" where
  "run_scenarios e a [] = io_return ()"
| "run_scenarios e a (s # ss) = io_bind (scenario_iteration e a s) (\<lambda>_. run_scenarios e a ss)"

definition main :: "env \<Rightarrow> args \<Rightarrow> unit io" where
  "main e a =
     io_bind (get_scenarios e) (\<lambda>all_scenarios.
     let scenarios = (case arg_scenario a of
                        None \<Rightarrow> all_scenarios
                      | Some ss \<Rightarrow> if ss \<noteq> [] then ss else all_scenarios)
     in run_scenarios e a scenarios)"

text \<open>An exception that leaves \<open>main\<close> ends the process with status 1.\<close>

definition exit_status :: "(py_error + unit) \<times> world \<Rightarrow> nat" where
  "exit_status r = (case fst r of Inl err \<Rightarrow> 1 | Inr u \<Rightarrow> 0)"

section \<open>Predicates and reference functions of the properties\<close>

text \<open>
  \<open>meets x s\<close>: \<open>x\<close> can begin at some position of \<open>s\<close>, that is, from that position on
  \<open>x\<close> and the rest of \<open>s\<close> agree as far as both go. It holds exactly when, in some text,
  an occurrence of \<open>x\<close> begins inside an occurrence of \<open>s\<close>.
\<close>

fun meets :: "string \<Rightarrow> string \<Rightarrow> bool" where
  "meets x [] = False"
| "meets x (c # cs) = (prefix x (c # cs) \<or> prefix (c # cs) x \<or> meets x cs)"

text \<open>
  When the step-by-step replacement and the single pass agree on every template: every key
  is non-empty, and for an entry \<open>(k, v)\<close> and the key \<open>k'\<close> of any later entry, neither
  \<open>k\<close> nor \<open>v\<close> can begin at a position of \<open>k'\<close> after its first, and \<open>k'\<close> cannot begin at
  any position of \<open>v\<close>. So no occurrence of a later key overlaps an occurrence of an earlier
  key that begins after it, or an inserted value.
\<close>

fun compatible :: "overrides \<Rightarrow> bool" where
  "compatible [] = True"
| "compatible ((k, v) # m) =
     (k \<noteq> [] \<and>
      (\<forall>(k', v') \<in> set m. \<not> meets k (tl k') \<and> \<not> meets v (tl k') \<and> \<not> meets k' v) \<and>
      compatible m)"

text \<open>\<^verbatim>\<open>s.split(sep)\<close> for a non-empty \<open>sep\<close>: the pieces between the occurrences of \<open>sep\<close>.\<close>

fun split_scan :: "string \<Rightarrow> string \<Rightarrow> string \<Rightarrow> string list" where
  "split_scan sep piece [] = [piece]"
| "split_scan sep piece (c # cs) =
     (if prefix sep (c # cs) then piece # split_scan sep [] (drop (length sep - 1) cs)
      else split_scan sep (piece @ [c]) cs)"

definition str_split :: "string \<Rightarrow> string \<Rightarrow> string list" where
  "str_split s sep = split_scan sep [] s"

text \<open>The paths written, in order.\<close>

fun written :: "event list \<Rightarrow> path list" where
  "written [] = []"
| "written (Wrote p c # evs) = p # written evs"
| "written (Printed s # evs) = written evs"
| "written (Ran cmd # evs) = written evs"
| "written (Globbed p # evs) = written evs"

text \<open>
  The result artifacts as the specification words them: the files directly inside the
  output directory whose name has the extension \<^verbatim>\<open>.json\<close>.
\<close>

definition json_files :: "filesystem \<Rightarrow> path \<Rightarrow> path set" where
  "json_files fs out_dir =
     {p. \<exists>c. (p, File c) \<in> set fs \<and> p \<noteq> [] \<and> butlast p = out_dir \<and> endswith (last p) ''.json''}"

text \<open>The commands run and the directories searched for results, in order.\<close>

fun ran :: "event list \<Rightarrow> string list" where
  "ran [] = []"
| "ran (Wrote p c # evs) = ran evs"
| "ran (Printed s # evs) = ran evs"
| "ran (Ran cmd # evs) = cmd # ran evs"
| "ran (Globbed p # evs) = ran evs"

fun globbed :: "event list \<Rightarrow> path list" where
  "globbed [] = []"
| "globbed (Wrote p c # evs) = globbed evs"
| "globbed (Printed s # evs) = globbed evs"
| "globbed (Ran cmd # evs) = globbed evs"
| "globbed (Globbed p # evs) = p # globbed evs"

text \<open>A computation that neither runs a command nor searches for results.\<close>

definition keeps_log :: "'a io \<Rightarrow> bool" where
  "keeps_log m = (\<forall>w r w'. m w = (r, w') \<longrightarrow>
     globbed (events w') = globbed (events w) \<and> ran (events w') = ran (events w))"

section \<open>Example worlds\<close>

text \<open>
  A project with one scenario \<open>s\<close> that has one driver template \<open>d\<close>; without a
  \<open>workloads\<close> directory, with an empty one, and with one workload \<open>w\<close>. The shell of
  \<open>example_env rc\<close> ends with status \<open>rc\<close> and touches no file.
\<close>

definition example_env :: "int \<Rightarrow> env" where
  "example_env rc =
     \<lparr>project_root = [''p''], tmp_candidates = [[''t'']], shell = (\<lambda>cmd fs. (rc, fs))\<rparr>"

definition example_args :: args where
  "example_args =
     \<lparr>arg_kafka = ''k:1'', arg_hstream = ''h:2'', arg_scenario = None, arg_driver = None,
      arg_workload = None, arg_result_dir = [''r'']\<rparr>"

definition scenario_tree :: filesystem where
  "scenario_tree =
     [([''p''], Dir), ([''p'', ''hstream-kafka''], Dir),
      ([''p'', ''hstream-kafka'', ''scenarios''], Dir),
      ([''p'', ''hstream-kafka'', ''scenarios'', ''s''], Dir),
      ([''p'', ''hstream-kafka'', ''scenarios'', ''s'', ''driver-tmpls''], Dir),
      ([''p'', ''hstream-kafka'', ''scenarios'', ''s'', ''driver-tmpls'', ''d''], File ''n: __NAME__'')]"

definition world_no_workloads_dir :: world where
  "world_no_workloads_dir = \<lparr>files = scenario_tree, events = []\<rparr>"

definition world_no_workloads :: world where
  "world_no_workloads =
     \<lparr>files = scenario_tree @ [([''p'', ''hstream-kafka'', ''scenarios'', ''s'', ''workloads''], Dir)],
      events = []\<rparr>"

definition world_one_workload :: world where
  "world_one_workload =
     \<lparr>files = scenario_tree @
        [([''p'', ''hstream-kafka'', ''scenarios'', ''s'', ''workloads''], Dir),
         ([''p'', ''hstream-kafka'', ''scenarios'', ''s'', ''workloads'', ''w''], File ''x'')],
      events = []\<rparr>"

text \<open>An output directory as in the specification's example, and one with a hidden file
  and a subdirectory whose names end in \<^verbatim>\<open>.json\<close>.\<close>

definition results_example :: world where
  "results_example = \<lparr>files = [([''r''], Dir), ([''r'', ''a.json''], File ''{}''),
      ([''r'', ''b.json''], File ''{}''), ([''r'', ''c.txt''], File ''x'')], events = []\<rparr>"

definition results_hidden :: world where
  "results_hidden = \<lparr>files = [([''r''], Dir), ([''r'', ''a.json''], File ''{}''),
      ([''r'', ''.h.json''], File ''{}''), ([''r'', ''sub.json''], Dir),
      ([''r'', ''sub.json'', ''x.json''], File ''{}'')], events = []\<rparr>"

text \<open>
  The scenario without its \<open>driver-tmpls\<close> directory, the scenario with a second template
  \<open>e\<close>, and a world that holds nothing but one file with the text of template \<open>d\<close>.
\<close>

definition world_no_templates_dir :: world where
  "world_no_templates_dir = \<lparr>files = take 4 scenario_tree, events = []\<rparr>"


definition world_single_file :: world where
  "world_single_file = \<lparr>files = [([''x''], File ''n: __NAME__'')], events = []\<rparr>"

section \<open>Scanning strings\<close>


lemma replace_scan_skip:
  "k \<noteq> [] \<Longrightarrow> hd k \<notin> set p \<Longrightarrow> replace_scan k v (p @ rest) = p @ replace_scan k v rest"
proof (induction p)
  case Nil
  then show ?case by simp
next
  case (Cons c p)
  from Cons.prems have "\<not> prefix k (c # p @ rest)"
    by (cases k) auto
  with Cons show ?case by simp
qed

lemma prefix_append_cases: "prefix x (a @ b) \<Longrightarrow> prefix x a \<or> prefix a x"
  by (auto simp: prefix_append)

lemma replace_scan_skip_meets:
  "\<not> meets k p \<Longrightarrow> replace_scan k v (p @ rest) = p @ replace_scan k v rest"
proof (induction p)
  case Nil
  then show ?case by simp
next
  case (Cons c p)
  from Cons.prems have "\<not> prefix k (c # p @ rest)"
    using prefix_append_cases [of k "c # p" rest] by auto
  with Cons show ?case by simp
qed

lemma single_pass_skip_meets:
  "\<forall>(k', v') \<in> set m. \<not> meets k' v \<Longrightarrow> single_pass m (v @ x) = v @ single_pass m x"
proof (induction v)
  case Nil
  then show ?case by simp
next
  case (Cons c v)
  have "find (\<lambda>(k, u). k \<noteq> [] \<and> prefix k (c # v @ x)) m = None"
    unfolding find_None_iff
  proof (clarify)
    fix k u assume in_m: "(k, u) \<in> set m" and pre: "prefix k (c # v @ x)"
    from pre have "prefix k (c # v) \<or> prefix (c # v) k"
      using prefix_append_cases [of k "c # v" x] by simp
    moreover from Cons.prems in_m have "\<not> meets k (c # v)" by auto
    ultimately show False by simp
  qed
  moreover from Cons.prems have "\<forall>(k', v') \<in> set m. \<not> meets k' v" by auto
  ultimately show ?case using Cons.IH by simp
qed

lemma prefix_replace_scan_meets:
  "\<not> meets v s \<Longrightarrow> prefix s (replace_scan k v t) \<Longrightarrow> prefix s t"
proof (induction t arbitrary: s)
  case Nil
  then show ?case by simp
next
  case (Cons c cs)
  show ?case
  proof (cases s)
    case Nil
    then show ?thesis by simp
  next
    case s: (Cons a s2)
    show ?thesis
    proof (cases "prefix k (c # cs)")
      case True
      with Cons.prems(2) have "prefix s (v @ replace_scan k v (drop (length k - 1) cs))" by simp
      then have "prefix s v \<or> prefix v s" by (rule prefix_append_cases)
      with Cons.prems(1) s show ?thesis by simp
    next
      case False
      with Cons.prems(2) s have "a = c" "prefix s2 (replace_scan k v cs)" by auto
      moreover from Cons.prems(1) s have "\<not> meets v s2" by simp
      ultimately have "prefix s2 cs" using Cons.IH by blast
      with \<open>a = c\<close> s show ?thesis by simp
    qed
  qed
qed

lemma find_Some_in: "find P xs = Some x \<Longrightarrow> x \<in> set xs \<and> P x"
  by (induction xs) (auto split: if_splits)

lemma find_cong_set: "(\<And>x. x \<in> set xs \<Longrightarrow> P x = Q x) \<Longrightarrow> find P xs = find Q xs"
  by (induction xs) auto

lemma compatible_keys: "compatible m \<Longrightarrow> (k, v) \<in> set m \<Longrightarrow> k \<noteq> []"
  by (induction m) auto

lemma single_pass_replace_scan:
  assumes k: "k \<noteq> []"
    and m: "\<forall>(k', v') \<in> set m. k' \<noteq> [] \<and> \<not> meets k (tl k') \<and> \<not> meets v (tl k') \<and> \<not> meets k' v"
  shows "single_pass m (replace_scan k v t) = single_pass ((k, v) # m) t"
proof (induction t rule: length_induct)
  case (1 t)
  show ?case
  proof (cases t)
    case Nil
    then show ?thesis by simp
  next
    case (Cons c cs)
    show ?thesis
    proof (cases "prefix k (c # cs)")
      case True
      have skip: "\<forall>(k', v') \<in> set m. \<not> meets k' v" using m by auto
      have "length (drop (length k - 1) cs) < length t" using Cons by simp
      with 1 have "single_pass m (replace_scan k v (drop (length k - 1) cs)) =
          single_pass ((k, v) # m) (drop (length k - 1) cs)" by blast
      with True k Cons show ?thesis by (simp add: single_pass_skip_meets [OF skip])
    next
      case False
      have rs: "replace_scan k v (c # cs) = c # replace_scan k v cs" using False by simp
      have same: "\<And>x. x \<in> set m \<Longrightarrow>
          (case x of (k', u) \<Rightarrow> k' \<noteq> [] \<and> prefix k' (c # replace_scan k v cs)) =
          (case x of (k', u) \<Rightarrow> k' \<noteq> [] \<and> prefix k' (c # cs))"
      proof -
        fix x assume xm: "x \<in> set m"
        obtain k' u where x: "x = (k', u)" by (cases x)
        from xm x m have c1: "\<not> meets k (tl k')" and c2: "\<not> meets v (tl k')" by auto
        have "prefix k' (c # replace_scan k v cs) = prefix k' (c # cs)"
        proof (cases k')
          case Nil
          then show ?thesis by simp
        next
          case k': (Cons a k2)
          have "prefix k2 (replace_scan k v cs) = prefix k2 cs"
          proof
            assume "prefix k2 (replace_scan k v cs)"
            with c2 k' show "prefix k2 cs" using prefix_replace_scan_meets [of v k2 k cs] by simp
          next
            assume "prefix k2 cs"
            then obtain rest where "cs = k2 @ rest" by (auto simp: prefix_def)
            with c1 k' show "prefix k2 (replace_scan k v cs)"
              by (simp add: replace_scan_skip_meets)
          qed
          with k' show ?thesis by simp
        qed
        with x show "(case x of (k', u) \<Rightarrow> k' \<noteq> [] \<and> prefix k' (c # replace_scan k v cs)) =
          (case x of (k', u) \<Rightarrow> k' \<noteq> [] \<and> prefix k' (c # cs))" by simp
      qed
      have fnd: "find (\<lambda>(k', u). k' \<noteq> [] \<and> prefix k' (c # replace_scan k v cs)) m =
          find (\<lambda>(k', u). k' \<noteq> [] \<and> prefix k' (c # cs)) m"
        by (rule find_cong_set [OF same])
      show ?thesis
      proof (cases "find (\<lambda>(k', u). k' \<noteq> [] \<and> prefix k' (c # cs)) m")
        case None
        have "length cs < length t" using Cons by simp
        with 1 have "single_pass m (replace_scan k v cs) = single_pass ((k, v) # m) cs" by blast
        with None fnd False k Cons rs show ?thesis by simp
      next
        case (Some x)
        obtain k' u where x: "x = (k', u)" by (cases x)
        from Some x have in_m: "(k', u) \<in> set m" and pre: "prefix k' (c # cs)" and ne: "k' \<noteq> []"
          using find_Some_in [of "\<lambda>(k', u). k' \<noteq> [] \<and> prefix k' (c # cs)" m x] by auto
        from in_m m have c1: "\<not> meets k (tl k')" by auto
        from pre ne obtain rest where cs: "cs = tl k' @ rest"
          by (cases k') (auto simp: prefix_def)
        have len: "length k' - 1 = length (tl k')" by simp
        have dr: "drop (length k' - 1) (replace_scan k v cs) = replace_scan k v (drop (length k' - 1) cs)"
          unfolding len cs by (simp add: replace_scan_skip_meets [OF c1])
        have "length (drop (length k' - 1) cs) < length t" using Cons by simp
        with 1 have "single_pass m (replace_scan k v (drop (length k' - 1) cs)) =
            single_pass ((k, v) # m) (drop (length k' - 1) cs)" by blast
        with Some x fnd False k Cons dr rs show ?thesis by simp
      qed
    qed
  qed
qed

lemma apply_overrides_single_pass:
  "compatible m \<Longrightarrow> apply_overrides m t = single_pass m t"
proof (induction m arbitrary: t)
  case Nil
  show ?case by (induction t) simp_all
next
  case (Cons kv m)
  obtain k v where kv: "kv = (k, v)" by (cases kv)
  from Cons.prems kv have k: "k \<noteq> []" and cm: "compatible m" by simp_all
  have cond: "\<forall>(k', v') \<in> set m. k' \<noteq> [] \<and> \<not> meets k (tl k') \<and> \<not> meets v (tl k') \<and> \<not> meets k' v"
    using Cons.prems kv compatible_keys [OF cm] by auto
  have "apply_overrides (kv # m) t = apply_overrides m (replace_scan k v t)"
    using kv k by (simp add: str_replace_def)
  also have "\<dots> = single_pass m (replace_scan k v t)" using Cons.IH [OF cm] .
  also have "\<dots> = single_pass ((k, v) # m) t" by (rule single_pass_replace_scan [OF k cond])
  finally show ?case using kv by simp
qed


lemma split_scan_not_Nil: "split_scan sep piece t \<noteq> []"
  by (induction sep piece t rule: split_scan.induct) auto

lemma join_strs_Cons: "xs \<noteq> [] \<Longrightarrow> join_strs sep (x # xs) = x @ sep @ join_strs sep xs"
  by (cases xs) simp_all

lemma replace_scan_join_split:
  "piece @ replace_scan k v t = join_strs v (split_scan k piece t)"
proof (induction k piece t rule: split_scan.induct)
  case (1 sep piece)
  show ?case by simp
next
  case (2 sep piece c cs)
  show ?case
  proof (cases "prefix sep (c # cs)")
    case True
    with 2 show ?thesis by (simp add: join_strs_Cons split_scan_not_Nil)
  next
    case False
    with 2 show ?thesis by simp
  qed
qed

lemma prefix_before_value:
  assumes "v \<noteq> []" "hd v \<notin> set k'" "prefix k' (a @ v @ b)"
  shows "prefix k' a"
proof (rule ccontr)
  assume "\<not> prefix k' a"
  from assms(3) have "prefix k' a \<or> prefix a k'"
    by (metis prefix_append prefix_def  prefix_same_cases)
  with \<open>\<not> prefix k' a\<close> obtain r where r: "k' = a @ r" "r \<noteq> []"
    by (auto simp: prefix_def)
  with assms(3) have "prefix r (v @ b)" by simp
  with r(2) assms(1) have "hd r = hd v" by (cases r; cases v) auto
  with r assms(2) show False by (cases r) auto
qed

lemma replace_scan_around:
  assumes k': "k' \<noteq> []" and v: "v \<noteq> []" and hv: "hd v \<notin> set k'" and hk: "hd k' \<notin> set v"
  shows "replace_scan k' v' (a @ v @ b) = replace_scan k' v' a @ v @ replace_scan k' v' b"
proof (induction a rule: length_induct)
  case (1 a)
  show ?case
  proof (cases a)
    case Nil
    then show ?thesis using replace_scan_skip [OF k' hk] by simp
  next
    case (Cons c cs)
    show ?thesis
    proof (cases "prefix k' (c # cs)")
      case True
      then have le: "length k' - 1 \<le> length cs" using k' by (cases k') (auto dest: prefix_length_le)
      have "length (drop (length k' - 1) cs) < length a" using Cons by simp
      with 1 have "replace_scan k' v' (drop (length k' - 1) cs @ v @ b) =
          replace_scan k' v' (drop (length k' - 1) cs) @ v @ replace_scan k' v' b" by blast
      moreover have "prefix k' (c # cs @ v @ b)" using True prefix_prefix [of k' "c # cs" "v @ b"] by simp
      ultimately show ?thesis using True Cons le by simp
    next
      case False
      have "\<not> prefix k' (c # cs @ v @ b)"
        using False prefix_before_value [OF v hv, of "c # cs" b] by auto
      moreover have "length cs < length a" using Cons by simp
      with 1 have "replace_scan k' v' (cs @ v @ b) = replace_scan k' v' cs @ v @ replace_scan k' v' b"
        by blast
      ultimately show ?thesis using False Cons by simp
    qed
  qed
qed

lemma replace_scan_join:
  assumes k': "k' \<noteq> []" and v: "v \<noteq> []" and hv: "hd v \<notin> set k'" and hk: "hd k' \<notin> set v"
  shows "replace_scan k' v' (join_strs v ps) = join_strs v (map (replace_scan k' v') ps)"
proof (induction ps)
  case Nil
  show ?case by simp
next
  case (Cons x xs)
  show ?case
  proof (cases xs)
    case Nil
    then show ?thesis by simp
  next
    case (Cons y ys)
    then have ne: "xs \<noteq> []" by simp
    have "replace_scan k' v' (join_strs v (x # xs)) = replace_scan k' v' (x @ v @ join_strs v xs)"
      using ne by (simp add: join_strs_Cons)
    also have "\<dots> = replace_scan k' v' x @ v @ replace_scan k' v' (join_strs v xs)"
      by (rule replace_scan_around [OF k' v hv hk])
    also have "\<dots> = replace_scan k' v' x @ v @ join_strs v (map (replace_scan k' v') xs)"
      using Cons.IH by simp
    also have "\<dots> = join_strs v (map (replace_scan k' v') (x # xs))"
      using ne by (simp add: join_strs_Cons)
    finally show ?thesis .
  qed
qed

lemma two_overrides_pieces:
  assumes k: "k \<noteq> []" and k': "k' \<noteq> []" and v: "v \<noteq> []"
    and hv: "hd v \<notin> set k'" and hk: "hd k' \<notin> set v"
  shows "apply_overrides [(k, v), (k', v')] t =
         join_strs v (map (\<lambda>p. str_replace p k' v') (str_split t k))"
proof -
  have "apply_overrides [(k, v), (k', v')] t = replace_scan k' v' (replace_scan k v t)"
    using k k' by (simp add: str_replace_def)
  also have "replace_scan k v t = join_strs v (str_split t k)"
    using replace_scan_join_split [of "[]" k v t] by (simp add: str_split_def)
  also have "replace_scan k' v' (join_strs v (str_split t k)) =
      join_strs v (map (replace_scan k' v') (str_split t k))"
    by (rule replace_scan_join [OF k' v hv hk])
  also have "(replace_scan k' v') = (\<lambda>p. str_replace p k' v')"
    using k' by (simp add: str_replace_def fun_eq_iff)
  finally show ?thesis .
qed

section \<open>Substitution: token after token, or in one pass\<close>

text \<open>
  C1, as the specification states it: rendering behaves as one pass over all tokens, and a
  value inserted for one token is never scanned again for the key of another. The code
  replaces token after token, so it fails where the value of the first token is the key of
  the second: the template \<^verbatim>\<open>__NAME__\<close> renders to \<^verbatim>\<open>x\<close>, the single pass gives
  \<^verbatim>\<open>__BOOTSTRAP_SERVERS__\<close>.
\<close>

theorem inserted_value_is_rescanned:
  "apply_overrides [(''__NAME__'', ''__BOOTSTRAP_SERVERS__''), (''__BOOTSTRAP_SERVERS__'', ''x'')]
     ''__NAME__'' = ''x''
   \<and> single_pass [(''__NAME__'', ''__BOOTSTRAP_SERVERS__''), (''__BOOTSTRAP_SERVERS__'', ''x'')]
     ''__NAME__'' = ''__BOOTSTRAP_SERVERS__''
   \<and> apply_overrides [(''__NAME__'', ''__BOOTSTRAP_SERVERS__''), (''__BOOTSTRAP_SERVERS__'', ''x'')]
     ''__NAME__''
     \<noteq> single_pass [(''__NAME__'', ''__BOOTSTRAP_SERVERS__''), (''__BOOTSTRAP_SERVERS__'', ''x'')]
     ''__NAME__''"
  by (simp add: str_replace_def)

text \<open>
  C1, amended: for the two override maps \<open>main\<close> builds, the name inserted for
  \<^verbatim>\<open>__NAME__\<close> is never scanned again. The rendered content is the template cut at the
  occurrences of \<^verbatim>\<open>__NAME__\<close>, with \<^verbatim>\<open>__BOOTSTRAP_SERVERS__\<close> replaced by the address in
  every piece, and the pieces joined by the name; the address, inserted last, is not
  scanned again either.
\<close>

theorem main_overrides_keep_inserted_name:
  "apply_overrides (kafka_driver_overrides a) t =
     join_strs ''kafka''
       (map (\<lambda>p. str_replace p ''__BOOTSTRAP_SERVERS__'' (arg_kafka a)) (str_split t ''__NAME__''))
   \<and> apply_overrides (hstream_driver_overrides a) t =
     join_strs ''hstream-kafka''
       (map (\<lambda>p. str_replace p ''__BOOTSTRAP_SERVERS__'' (arg_hstream a)) (str_split t ''__NAME__''))"
  unfolding kafka_driver_overrides_def hstream_driver_overrides_def
  by (intro conjI two_overrides_pieces) simp_all

text \<open>
  C2, as the specification states it: with keys that are disjoint and not substrings of each
  other, rendering gives the template with every key replaced by its value. The keys
  \<^verbatim>\<open>A\<close> and \<^verbatim>\<open>B\<close> are such keys, yet the template \<^verbatim>\<open>A\<close> renders to \<^verbatim>\<open>C\<close> and not to
  the value \<^verbatim>\<open>B\<close> of its key.
\<close>

theorem disjoint_keys_not_enough:
  "apply_overrides [(''A'', ''B''), (''B'', ''C'')] ''A'' = ''C''
   \<and> single_pass [(''A'', ''B''), (''B'', ''C'')] ''A'' = ''B''
   \<and> apply_overrides [(''A'', ''B''), (''B'', ''C'')] ''A''
       \<noteq> single_pass [(''A'', ''B''), (''B'', ''C'')] ''A''"
  by (simp add: str_replace_def)

text \<open>
  C2, amended: for every template and every override map that is \<open>compatible\<close> (every key
  non-empty; for an entry \<open>(k, v)\<close> and the key \<open>k'\<close> of a later entry, no occurrence of \<open>k\<close>
  or of \<open>v\<close> can begin inside an occurrence of \<open>k'\<close> after its first character, and no
  occurrence of \<open>k'\<close> can begin inside \<open>v\<close>), rendering gives the template with every key
  replaced by its value, as the single pass does. The example of the specification renders
  as stated.
\<close>

theorem rendering_replaces_every_key:
  "(compatible m \<longrightarrow> apply_overrides m t = single_pass m t)
   \<and> apply_overrides [(''__NAME__'', ''kafka''), (''__BOOTSTRAP_SERVERS__'', ''localhost:9092'')]
       ''__NAME__ connects to __BOOTSTRAP_SERVERS__'' = ''kafka connects to localhost:9092''"
  by (simp add: apply_overrides_single_pass) (simp add: str_replace_def)

text \<open>
  A witness of C2: two tokens that begin and end with the same characters, with the values
  of \<open>main\<close>.
\<close>

theorem rendering_replaces_every_key_witness:
  "compatible [(''{{NAME}}'', ''kafka''), (''{{BOOTSTRAP_SERVERS}}'', ''localhost:9092'')]
   \<and> apply_overrides [(''{{NAME}}'', ''kafka''), (''{{BOOTSTRAP_SERVERS}}'', ''localhost:9092'')]
        ''{{NAME}} connects to {{BOOTSTRAP_SERVERS}}''
      = single_pass [(''{{NAME}}'', ''kafka''), (''{{BOOTSTRAP_SERVERS}}'', ''localhost:9092'')]
        ''{{NAME}} connects to {{BOOTSTRAP_SERVERS}}''
   \<and> single_pass [(''{{NAME}}'', ''kafka''), (''{{BOOTSTRAP_SERVERS}}'', ''localhost:9092'')]
        ''{{NAME}} connects to {{BOOTSTRAP_SERVERS}}'' = ''kafka connects to localhost:9092''"
  using rendering_replaces_every_key
    [of "[(''{{NAME}}'', ''kafka''), (''{{BOOTSTRAP_SERVERS}}'', ''localhost:9092'')]"
        "''{{NAME}} connects to {{BOOTSTRAP_SERVERS}}''"]
  by simp

text \<open>
  The hypothesis cannot be dropped for the keys of \<open>main\<close>: \<^verbatim>\<open>__NAME__\<close> can begin
  inside \<^verbatim>\<open>__BOOTSTRAP_SERVERS__\<close>, at its last two characters, and on such a template the
  step-by-step replacement and the single pass differ.
\<close>

lemma overlapping_keys_differ:
  "\<not> compatible [(''__NAME__'', ''kafka''), (''__BOOTSTRAP_SERVERS__'', ''x'')]
   \<and> apply_overrides [(''__NAME__'', ''kafka''), (''__BOOTSTRAP_SERVERS__'', ''x'')]
        ''__BOOTSTRAP_SERVERS__NAME__'' = ''__BOOTSTRAP_SERVERSkafka''
   \<and> single_pass [(''__NAME__'', ''kafka''), (''__BOOTSTRAP_SERVERS__'', ''x'')]
        ''__BOOTSTRAP_SERVERS__NAME__'' = ''xNAME__''"
  by (simp add: str_replace_def)

section \<open>Effects of the steps\<close>

lemma io_bind_Inl: "m w = (Inl err, w') \<Longrightarrow> io_bind m f w = (Inl err, w')"
  by (simp add: io_bind_def)

lemma io_bind_Inr: "m w = (Inr x, w') \<Longrightarrow> io_bind m f w = f x w'"
  by (simp add: io_bind_def)

lemma globbed_append: "globbed (xs @ ys) = globbed xs @ globbed ys"
  by (induction xs rule: globbed.induct) simp_all

lemma ran_append: "ran (xs @ ys) = ran xs @ ran ys"
  by (induction xs rule: ran.induct) simp_all


lemma py_mkdir_events: "py_mkdir p w = (r, w') \<Longrightarrow> events w' = events w"
  by (auto simp: py_mkdir_def split: prod.splits option.splits)

lemma scandir_world: "scandir p w = (r, w') \<Longrightarrow> w' = w"
  by (auto simp: scandir_def split: sum.splits node.splits)

lemma read_text_world: "read_text p w = (r, w') \<Longrightarrow> w' = w"
  by (auto simp: read_text_def split: sum.splits node.splits)



lemma get_workloads_world: "get_workloads e s w = (r, w') \<Longrightarrow> w' = w"
  by (auto simp: get_workloads_def io_bind_def io_return_def Let_def
      split: prod.splits sum.splits dest: scandir_world)

lemma keeps_logD:
  "keeps_log m \<Longrightarrow> m w = (r, w') \<Longrightarrow>
   globbed (events w') = globbed (events w) \<and> ran (events w') = ran (events w)"
  by (simp add: keeps_log_def)

lemma keeps_log_bind: "keeps_log m \<Longrightarrow> (\<And>x. keeps_log (f x)) \<Longrightarrow> keeps_log (io_bind m f)"
  unfolding keeps_log_def io_bind_def
  by (auto split: prod.splits sum.splits)

lemma keeps_log_return: "keeps_log (io_return x)"
  by (simp add: keeps_log_def io_return_def)

lemma keeps_log_raise: "keeps_log (io_raise err)"
  by (simp add: keeps_log_def io_raise_def)

lemma keeps_log_py_mkdir: "keeps_log (py_mkdir p)"
  by (auto simp: keeps_log_def py_mkdir_def split: prod.splits option.splits)

lemma keeps_log_scandir: "keeps_log (scandir p)"
  by (auto simp: keeps_log_def scandir_def split: sum.splits node.splits)

lemma keeps_log_read_text: "keeps_log (read_text p)"
  by (auto simp: keeps_log_def read_text_def split: sum.splits node.splits)

lemma keeps_log_write_text: "keeps_log (write_text p c)"
  by (auto simp: keeps_log_def write_text_def globbed_append ran_append
      split: sum.splits node.splits py_error.splits if_splits)

lemma keeps_log_py_print: "keeps_log (py_print s)"
  by (auto simp: keeps_log_def py_print_def globbed_append ran_append)

lemma keeps_log_str_join: "keeps_log (str_join sep items)"
  by (simp add: str_join_def keeps_log_return keeps_log_raise)

lemma keeps_log_gen_driver: "keeps_log (gen_driver dir ovr ts)"
  by (induction ts)
    (auto intro!: keeps_log_bind keeps_log_return keeps_log_read_text keeps_log_write_text)

lemma keeps_log_setup_drivers: "keeps_log (setup_drivers ts s g ovr)"
  by (auto simp: setup_drivers_def Let_def intro!: keeps_log_bind keeps_log_py_mkdir keeps_log_gen_driver)

lemma keeps_log_setup_step: "keeps_log (setup_step a s d)"
  by (auto simp: setup_step_def Let_def intro!: keeps_log_bind keeps_log_py_mkdir keeps_log_return)

lemma keeps_log_render_step: "keeps_log (render_step e a s d)"
  by (auto simp: render_step_def get_driver_tmpls_def Let_def
      intro!: keeps_log_bind keeps_log_scandir keeps_log_setup_drivers keeps_log_return)

lemma keeps_log_build_command: "keeps_log (build_command e a s out drivers)"
  by (auto simp: build_command_def get_workloads_def Let_def
      intro!: keeps_log_bind keeps_log_scandir keeps_log_str_join keeps_log_return)

lemma keeps_log_mkdtemp: "keeps_log (mkdtemp e)"
  by (auto simp: keeps_log_def mkdtemp_def split: option.splits)

lemma run_scenarios_append:
  "run_scenarios e a (xs @ ys) = io_bind (run_scenarios e a xs) (\<lambda>_. run_scenarios e a ys)"
proof (induction xs)
  case Nil
  show ?case by (rule ext) (simp add: io_bind_def io_return_def)
next
  case (Cons x xs)
  show ?case
    by (rule ext) (simp add: Cons io_bind_def split: prod.splits sum.splits)
qed

section \<open>Path resolution\<close>

lemma map_of_rmtree: "prefix d q \<Longrightarrow> map_of (rmtree d fs) q = None"
  by (induction fs) (auto simp: rmtree_def)

lemma resolve_from_Inr: "resolve_from fs whole cur rest = Inr n \<Longrightarrow> node_at fs (cur @ rest) = Some n"
proof (induction fs whole cur rest rule: resolve_from.induct)
  case (1 fs whole cur rest)
  show ?case
  proof (cases "node_at fs cur")
    case None
    with 1(2) show ?thesis by simp
  next
    case (Some nd)
    show ?thesis
    proof (cases nd)
      case (File c)
      with Some 1(2) show ?thesis by (auto split: if_splits)
    next
      case Dir
      show ?thesis
      proof (cases rest)
        case Nil
        with Some Dir 1(2) show ?thesis by simp
      next
        case (Cons x xs)
        with Some Dir 1(2) have "resolve_from fs whole (cur @ [x]) xs = Inr n" by simp
        with 1(1) [OF Some Dir Cons] Cons show ?thesis by simp
      qed
    qed
  qed
qed

lemma resolve_Inr: "resolve fs p = Inr n \<Longrightarrow> node_at fs p = Some n"
  using resolve_from_Inr [of fs p "[]" p n] by (simp add: resolve_def)

lemma mkdtemp_not_root: "mkdtemp e w = (Inr d, w0) \<Longrightarrow> d \<noteq> []"
  by (auto simp: mkdtemp_def split: option.splits dest!: find_Some_in)

lemma resolve_from_missing:
  "resolve_from fs whole cur rest = Inl (FileNotFoundError q) \<Longrightarrow>
   resolve_from fs whole' cur (rest @ ys) = Inl (FileNotFoundError whole')"
proof (induction fs whole cur rest rule: resolve_from.induct)
  case (1 fs whole cur rest)
  show ?case
  proof (cases "node_at fs cur")
    case None
    then show ?thesis by simp
  next
    case (Some nd)
    show ?thesis
    proof (cases nd)
      case (File c)
      with Some 1(2) show ?thesis by (auto split: if_splits)
    next
      case Dir
      show ?thesis
      proof (cases rest)
        case Nil
        with Some Dir 1(2) show ?thesis by simp
      next
        case (Cons x xs)
        with Some Dir 1(2) have "resolve_from fs whole (cur @ [x]) xs = Inl (FileNotFoundError q)" by simp
        from 1(1) [OF Some Dir Cons this] Some Dir Cons show ?thesis by simp
      qed
    qed
  qed
qed

lemma resolve_missing_below:
  "resolve fs p = Inl (FileNotFoundError q) \<Longrightarrow> resolve fs (p @ ys) = Inl (FileNotFoundError (p @ ys))"
  unfolding resolve_def by (rule resolve_from_missing)

lemma scandir_missing:
  "resolve (files w) p = Inl (FileNotFoundError q) \<Longrightarrow> scandir p w = (Inl (FileNotFoundError q), w)"
  by (simp add: scandir_def)

lemma resolve_error_path: "resolve_from fs whole cur rest = Inl (FileNotFoundError q) \<Longrightarrow> q = whole"
  by (induction fs whole cur rest rule: resolve_from.induct)
    (auto split: option.splits node.splits if_splits list.splits)

lemma node_at_fs_put:
  "p \<noteq> [] \<Longrightarrow> node_at (fs_put fs p n) q = (if q = p then Some n else node_at fs q)"
proof -
  have "q \<noteq> p \<Longrightarrow> map_of (filter (\<lambda>(q', _). q' \<noteq> p) fs) q = map_of fs q"
    by (induction fs) auto
  then show "p \<noteq> [] \<Longrightarrow> ?thesis" by (auto simp: node_at_def fs_put_def)
qed

lemma mkdir_from_keeps:
  "node_at fs q = Some n \<Longrightarrow> node_at (snd (mkdir_from cur xs fs)) q = Some n"
proof (induction xs arbitrary: cur fs)
  case Nil
  then show ?case by simp
next
  case (Cons x xs)
  show ?case
  proof (cases "node_at fs (cur @ [x])")
    case None
    with Cons.prems have "q \<noteq> cur @ [x]" by auto
    with Cons.prems have "node_at (fs_put fs (cur @ [x]) Dir) q = Some n"
      by (simp add: node_at_fs_put)
    from Cons.IH [OF this] None show ?thesis by simp
  next
    case (Some nd)
    with Cons show ?thesis by (cases nd) simp_all
  qed
qed

lemma resolve_from_Nil:
  "resolve_from fs whole cur [] =
     (case node_at fs cur of None \<Rightarrow> Inl (FileNotFoundError whole) | Some n \<Rightarrow> Inr n)"
  by (simp split: option.splits node.splits)

lemma resolve_from_Cons:
  "resolve_from fs whole cur (x # xs) =
     (case node_at fs cur of
        None \<Rightarrow> Inl (FileNotFoundError whole)
      | Some (File c) \<Rightarrow> Inl (NotADirectoryError whole)
      | Some Dir \<Rightarrow> resolve_from fs whole (cur @ [x]) xs)"
  by (simp split: option.splits node.splits)

lemma resolve_from_mono:
  assumes "\<And>q n. node_at fs q = Some n \<Longrightarrow> node_at fs' q = Some n"
  shows "resolve_from fs whole cur rest = Inr n \<Longrightarrow> resolve_from fs' whole cur rest = Inr n"
proof (induction rest arbitrary: cur)
  case Nil
  then show ?case using assms [of cur]
    by (auto simp only: resolve_from_Nil split: option.splits)
next
  case (Cons x xs)
  from Cons.prems obtain nd where nd: "node_at fs cur = Some nd"
    by (auto simp only: resolve_from_Cons split: option.splits)
  with Cons.prems have d: "nd = Dir" and r: "resolve_from fs whole (cur @ [x]) xs = Inr n"
    by (auto simp only: resolve_from_Cons split: option.splits node.splits)
  from assms [OF nd] d have "node_at fs' cur = Some Dir" by simp
  with Cons.IH [OF r] show ?case by (simp only: resolve_from_Cons) simp
qed

lemma resolve_from_put_short:
  "p \<noteq> [] \<Longrightarrow> length cur + length rest < length p \<Longrightarrow>
   resolve_from (fs_put fs p n) whole cur rest = resolve_from fs whole cur rest"
proof (induction rest arbitrary: cur)
  case Nil
  then have "cur \<noteq> p" by auto
  with Nil have "node_at (fs_put fs p n) cur = node_at fs cur" by (simp add: node_at_fs_put)
  then show ?case by (simp only: resolve_from_Nil)
next
  case (Cons x xs)
  then have "cur \<noteq> p" by auto
  with Cons have "node_at (fs_put fs p n) cur = node_at fs cur" by (simp add: node_at_fs_put)
  moreover from Cons have "resolve_from (fs_put fs p n) whole (cur @ [x]) xs = resolve_from fs whole (cur @ [x]) xs"
    by simp
  ultimately show ?case by (simp only: resolve_from_Cons)
qed

lemma resolve_from_snoc:
  "resolve_from fs whole cur rest = Inr Dir \<Longrightarrow>
   resolve_from fs whole' cur (rest @ [x]) =
     (case node_at fs (cur @ rest @ [x]) of None \<Rightarrow> Inl (FileNotFoundError whole') | Some n \<Rightarrow> Inr n)"
proof (induction rest arbitrary: cur)
  case Nil
  then have "node_at fs cur = Some Dir"
    by (auto simp only: resolve_from_Nil split: option.splits)
  then show ?case by (simp add: resolve_from_Cons resolve_from_Nil del: resolve_from.simps)
next
  case (Cons y ys)
  from Cons.prems have d: "node_at fs cur = Some Dir" and r: "resolve_from fs whole (cur @ [y]) ys = Inr Dir"
    by (auto simp only: resolve_from_Cons split: option.splits node.splits)
  from Cons.IH [OF r] d show ?case by (simp add: resolve_from_Cons del: resolve_from.simps)
qed

lemma read_after_write:
  assumes "write_text p c w = (Inr (), w')"
  shows "resolve (files w') p = Inr (File c)"
proof -
  from assms have p: "p \<noteq> []" by (auto simp: write_text_def split: if_splits)
  with assms have par: "resolve (files w) (butlast p) = Inr Dir"
    and f: "files w' = fs_put (files w) p (File c)"
    by (auto simp: write_text_def split: if_splits sum.splits node.splits py_error.splits)
  have "resolve_from (fs_put (files w) p (File c)) (butlast p) [] (butlast p) = Inr Dir"
    using par p by (simp add: resolve_def resolve_from_put_short del: resolve_from.simps)
  from resolve_from_snoc [OF this, of p "last p"] p
  show ?thesis by (simp add: f resolve_def node_at_fs_put del: resolve_from.simps)
qed

lemma py_mkdir_keeps:
  assumes "py_mkdir d w = (r, w')" "resolve (files w) p = Inr n"
  shows "resolve (files w') p = Inr n"
proof -
  from assms(1) have "files w' = snd (mkdir_from [] d (files w))"
    by (auto simp: py_mkdir_def split: prod.splits option.splits)
  with assms(2) show ?thesis
    unfolding resolve_def using resolve_from_mono [of "files w" "files w'"] mkdir_from_keeps by metis
qed

lemma with_snd: "fst x = a \<Longrightarrow> x = (a, snd x)"
  by auto

section \<open>Name filters\<close>

lemma scenario_body_empty_driver:
  "scenario_body e (a\<lparr>arg_driver := Some []\<rparr>) s = scenario_body e (a\<lparr>arg_driver := None\<rparr>) s"
  by (rule ext) (simp add: scenario_body_def setup_step_def render_step_def execute_step_def
      build_command_def select_names_def kafka_driver_overrides_def hstream_driver_overrides_def)

lemma scenario_body_empty_workload:
  "scenario_body e (a\<lparr>arg_workload := Some []\<rparr>) s = scenario_body e (a\<lparr>arg_workload := None\<rparr>) s"
  by (rule ext) (simp add: scenario_body_def setup_step_def render_step_def execute_step_def
      build_command_def select_names_def kafka_driver_overrides_def hstream_driver_overrides_def)

lemma run_scenarios_cong:
  "(\<And>s. scenario_body e a s = scenario_body e b s) \<Longrightarrow>
   run_scenarios e a ss = run_scenarios e b ss"
  by (induction ss) (simp_all add: scenario_iteration_def)

text \<open>
  C10: a driver-name or workload-name filter given as an empty list of names is taken as
  absent. The selection keeps every entry, and the whole run is the run without the flag.
\<close>

theorem empty_filter_is_no_filter:
  "select_names (Some []) entries = entries
   \<and> main e (a\<lparr>arg_driver := Some []\<rparr>) = main e (a\<lparr>arg_driver := None\<rparr>)
   \<and> main e (a\<lparr>arg_workload := Some []\<rparr>) = main e (a\<lparr>arg_workload := None\<rparr>)"
proof (intro conjI)
  show "select_names (Some []) entries = entries" by (simp add: select_names_def)
  show "main e (a\<lparr>arg_driver := Some []\<rparr>) = main e (a\<lparr>arg_driver := None\<rparr>)"
    using run_scenarios_cong [of e "a\<lparr>arg_driver := Some []\<rparr>" "a\<lparr>arg_driver := None\<rparr>"]
    by (simp add: main_def scenario_body_empty_driver)
  show "main e (a\<lparr>arg_workload := Some []\<rparr>) = main e (a\<lparr>arg_workload := None\<rparr>)"
    using run_scenarios_cong [of e "a\<lparr>arg_workload := Some []\<rparr>" "a\<lparr>arg_workload := None\<rparr>"]
    by (simp add: main_def scenario_body_empty_workload)
qed





section \<open>Missing directories\<close>

text \<open>
  C4, as the specification states it: a scenario whose \<open>workloads\<close> directory is absent
  fails before any rendering occurs. The code lists the workloads after it has rendered the
  drivers: in the world without that directory the run fails with \<open>FileNotFoundError\<close>,
  and both drivers have been written by then.
\<close>

theorem missing_workloads_found_after_rendering:
  "resolve (files world_no_workloads_dir) [''p'', ''hstream-kafka'', ''scenarios'', ''s'', ''workloads'']
     = Inl (FileNotFoundError [''p'', ''hstream-kafka'', ''scenarios'', ''s'', ''workloads''])
   \<and> fst (main (example_env 0) example_args world_no_workloads_dir)
     = Inl (FileNotFoundError [''p'', ''hstream-kafka'', ''scenarios'', ''s'', ''workloads''])
   \<and> events (snd (main (example_env 0) example_args world_no_workloads_dir))
     = [Wrote [''t'', ''kafka'', ''s'', ''drivers'', ''d''] ''n: kafka'',
        Wrote [''t'', ''hstream'', ''s'', ''drivers'', ''d''] ''n: hstream-kafka'']"
proof (intro conjI)
  show "resolve (files world_no_workloads_dir) [''p'', ''hstream-kafka'', ''scenarios'', ''s'', ''workloads'']
     = Inl (FileNotFoundError [''p'', ''hstream-kafka'', ''scenarios'', ''s'', ''workloads''])"
    by code_simp
  show "fst (main (example_env 0) example_args world_no_workloads_dir)
     = Inl (FileNotFoundError [''p'', ''hstream-kafka'', ''scenarios'', ''s'', ''workloads''])"
    by code_simp
  show "events (snd (main (example_env 0) example_args world_no_workloads_dir))
     = [Wrote [''t'', ''kafka'', ''s'', ''drivers'', ''d''] ''n: kafka'',
        Wrote [''t'', ''hstream'', ''s'', ''drivers'', ''d''] ''n: hstream-kafka'']"
    by code_simp
qed

lemma setup_step_events: "setup_step a s d w = (r, w') \<Longrightarrow> events w' = events w"
  by (auto simp: setup_step_def io_bind_def io_return_def Let_def
      split: prod.splits sum.splits dest!: py_mkdir_events)

text \<open>
  C4, amended: when the scenario directory or its \<open>driver-tmpls\<close> directory is not found
  as the rendering starts, the iteration fails with \<open>FileNotFoundError\<close> and nothing has
  been written; when the \<open>workloads\<close> directory is not found after the rendering, the
  iteration fails with \<open>FileNotFoundError\<close> and no command has been run; when the
  directory of the scenarios is not found, \<open>main\<close> fails with \<open>FileNotFoundError\<close> at once.
\<close>

theorem missing_directory_aborts:
  "(setup_step a s d w0 = (Inr out_dir, w1) \<and>
      (resolve (files w1) (SCENARIO_DIR e @ [s]) = Inl (FileNotFoundError (SCENARIO_DIR e @ [s])) \<or>
       resolve (files w1) (SCENARIO_DIR e @ [s, ''driver-tmpls''])
         = Inl (FileNotFoundError (SCENARIO_DIR e @ [s, ''driver-tmpls''])))
    \<longrightarrow> scenario_body e a s d w0
          = (Inl (FileNotFoundError (SCENARIO_DIR e @ [s, ''driver-tmpls''])), w1)
        \<and> events w1 = events w0)
   \<and> (setup_step a s d w0 = (Inr out_dir, w1) \<and> render_step e a s d w1 = (Inr drivers, w2) \<and>
       resolve (files w2) (SCENARIO_DIR e @ [s, ''workloads''])
         = Inl (FileNotFoundError (SCENARIO_DIR e @ [s, ''workloads'']))
    \<longrightarrow> scenario_body e a s d w0
          = (Inl (FileNotFoundError (SCENARIO_DIR e @ [s, ''workloads''])), w2)
        \<and> ran (events w2) = ran (events w0))
   \<and> (resolve (files w) (SCENARIO_DIR e) = Inl (FileNotFoundError (SCENARIO_DIR e))
    \<longrightarrow> main e a w = (Inl (FileNotFoundError (SCENARIO_DIR e)), w))"
proof (intro conjI impI)
  assume h: "setup_step a s d w0 = (Inr out_dir, w1) \<and>
      (resolve (files w1) (SCENARIO_DIR e @ [s]) = Inl (FileNotFoundError (SCENARIO_DIR e @ [s])) \<or>
       resolve (files w1) (SCENARIO_DIR e @ [s, ''driver-tmpls''])
         = Inl (FileNotFoundError (SCENARIO_DIR e @ [s, ''driver-tmpls''])))"
  then have st: "setup_step a s d w0 = (Inr out_dir, w1)" by simp
  from h have "resolve (files w1) (SCENARIO_DIR e @ [s, ''driver-tmpls''])
         = Inl (FileNotFoundError (SCENARIO_DIR e @ [s, ''driver-tmpls'']))"
    using resolve_missing_below [of "files w1" "SCENARIO_DIR e @ [s]" _ "[''driver-tmpls'']"] by auto
  then have "render_step e a s d w1 = (Inl (FileNotFoundError (SCENARIO_DIR e @ [s, ''driver-tmpls''])), w1)"
    by (simp add: render_step_def get_driver_tmpls_def io_bind_def scandir_missing)
  with st show "scenario_body e a s d w0
          = (Inl (FileNotFoundError (SCENARIO_DIR e @ [s, ''driver-tmpls''])), w1)"
    by (simp add: scenario_body_def io_bind_def)
  from st show "events w1 = events w0" by (rule setup_step_events)
next
  assume h: "setup_step a s d w0 = (Inr out_dir, w1) \<and> render_step e a s d w1 = (Inr drivers, w2) \<and>
       resolve (files w2) (SCENARIO_DIR e @ [s, ''workloads''])
         = Inl (FileNotFoundError (SCENARIO_DIR e @ [s, ''workloads'']))"
  then have "execute_step e a s out_dir drivers w2
      = (Inl (FileNotFoundError (SCENARIO_DIR e @ [s, ''workloads''])), w2)"
    by (simp add: execute_step_def build_command_def get_workloads_def io_bind_def scandir_missing)
  with h show "scenario_body e a s d w0
          = (Inl (FileNotFoundError (SCENARIO_DIR e @ [s, ''workloads''])), w2)"
    by (simp add: scenario_body_def io_bind_def)
  from h show "ran (events w2) = ran (events w0)"
    using keeps_logD [OF keeps_log_setup_step] keeps_logD [OF keeps_log_render_step] by metis
next
  assume "resolve (files w) (SCENARIO_DIR e) = Inl (FileNotFoundError (SCENARIO_DIR e))"
  then show "main e a w = (Inl (FileNotFoundError (SCENARIO_DIR e)), w)"
    by (simp add: main_def get_scenarios_def io_bind_def scandir_missing)
qed

text \<open>A witness of C4 for each of the three cases.\<close>

theorem missing_directory_aborts_witness:
  "fst (scenario_body (example_env 0) example_args ''s'' [''t'']
          (snd (mkdtemp (example_env 0) world_no_templates_dir)))
     = Inl (FileNotFoundError [''p'', ''hstream-kafka'', ''scenarios'', ''s'', ''driver-tmpls''])
   \<and> events (snd (scenario_body (example_env 0) example_args ''s'' [''t'']
          (snd (mkdtemp (example_env 0) world_no_templates_dir)))) = []
   \<and> fst (scenario_body (example_env 0) example_args ''s'' [''t'']
          (snd (mkdtemp (example_env 0) world_no_workloads_dir)))
     = Inl (FileNotFoundError [''p'', ''hstream-kafka'', ''scenarios'', ''s'', ''workloads''])
   \<and> ran (events (snd (scenario_body (example_env 0) example_args ''s'' [''t'']
          (snd (mkdtemp (example_env 0) world_no_workloads_dir))))) = []
   \<and> main (example_env 0) example_args \<lparr>files = [], events = []\<rparr>
     = (Inl (FileNotFoundError [''p'', ''hstream-kafka'', ''scenarios'']), \<lparr>files = [], events = []\<rparr>)"
proof -
  let ?e = "example_env 0"
  let ?tm = "[''p'', ''hstream-kafka'', ''scenarios'', ''s'', ''driver-tmpls'']"
  let ?wl = "[''p'', ''hstream-kafka'', ''scenarios'', ''s'', ''workloads'']"
  let ?drivers = "[[''t'', ''kafka'', ''s'', ''drivers'', ''d''], [''t'', ''hstream'', ''s'', ''drivers'', ''d'']]"
  have sd: "SCENARIO_DIR ?e = [''p'', ''hstream-kafka'', ''scenarios'']" by code_simp
  let ?a0 = "snd (mkdtemp ?e world_no_templates_dir)"
  let ?a1 = "snd (setup_step example_args ''s'' [''t''] ?a0)"
  have "fst (setup_step example_args ''s'' [''t''] ?a0) = Inr [''r'', ''s'']" by code_simp
  then have st1: "setup_step example_args ''s'' [''t''] ?a0 = (Inr [''r'', ''s''], ?a1)" by (rule with_snd)
  have r1: "resolve (files ?a1) (SCENARIO_DIR ?e @ [''s'', ''driver-tmpls''])
      = Inl (FileNotFoundError (SCENARIO_DIR ?e @ [''s'', ''driver-tmpls'']))" by code_simp
  have e1: "events ?a0 = []" by code_simp
  from missing_directory_aborts [where e = ?e and a = example_args and s = "''s''" and d = "[''t'']"
      and ?w0.0 = ?a0 and out_dir = "[''r'', ''s'']" and ?w1.0 = ?a1] st1 r1
  have p1: "scenario_body ?e example_args ''s'' [''t''] ?a0 = (Inl (FileNotFoundError (SCENARIO_DIR ?e @ [''s'', ''driver-tmpls''])), ?a1)
      \<and> events ?a1 = events ?a0" by blast
  let ?b0 = "snd (mkdtemp ?e world_no_workloads_dir)"
  let ?b1 = "snd (setup_step example_args ''s'' [''t''] ?b0)"
  let ?b2 = "snd (render_step ?e example_args ''s'' [''t''] ?b1)"
  have "fst (setup_step example_args ''s'' [''t''] ?b0) = Inr [''r'', ''s'']" by code_simp
  then have st2: "setup_step example_args ''s'' [''t''] ?b0 = (Inr [''r'', ''s''], ?b1)" by (rule with_snd)
  have "fst (render_step ?e example_args ''s'' [''t''] ?b1) = Inr ?drivers" by code_simp
  then have rn2: "render_step ?e example_args ''s'' [''t''] ?b1 = (Inr ?drivers, ?b2)" by (rule with_snd)
  have r2: "resolve (files ?b2) (SCENARIO_DIR ?e @ [''s'', ''workloads''])
      = Inl (FileNotFoundError (SCENARIO_DIR ?e @ [''s'', ''workloads'']))" by code_simp
  have e2: "ran (events ?b0) = []" by code_simp
  from missing_directory_aborts [where e = ?e and a = example_args and s = "''s''" and d = "[''t'']"
      and ?w0.0 = ?b0 and out_dir = "[''r'', ''s'']" and ?w1.0 = ?b1 and drivers = ?drivers and ?w2.0 = ?b2]
    st2 rn2 r2
  have p2: "scenario_body ?e example_args ''s'' [''t''] ?b0 = (Inl (FileNotFoundError (SCENARIO_DIR ?e @ [''s'', ''workloads''])), ?b2)
      \<and> ran (events ?b2) = ran (events ?b0)" by blast
  have r3: "resolve (files \<lparr>files = [], events = []\<rparr>) (SCENARIO_DIR ?e) = Inl (FileNotFoundError (SCENARIO_DIR ?e))"
    by code_simp
  from missing_directory_aborts [where e = ?e and a = example_args and w = "\<lparr>files = [], events = []\<rparr>"] r3
  have p3: "main ?e example_args \<lparr>files = [], events = []\<rparr>
      = (Inl (FileNotFoundError (SCENARIO_DIR ?e)), \<lparr>files = [], events = []\<rparr>)" by blast
  from p1 p2 p3 e1 e2 show ?thesis by (simp add: sd)
qed

section \<open>The executor\<close>

lemma list_all_is_str: "list_all is_str (map (\<lambda>x. PyStr (f x)) xs)"
  by (induction xs) simp_all

lemma str_join_strs: "str_join sep (map (PyStr \<circ> f) xs) w = (Inr (join_strs sep (map f xs)), w)"
  by (simp add: str_join_def list_all_is_str io_return_def comp_def)

lemma str_join_entries: "xs \<noteq> [] \<Longrightarrow> str_join sep (map PyDirEntry xs) w = (Inl (TypeError 0), w)"
  by (cases xs) (simp_all add: str_join_def io_raise_def)

text \<open>
  C3: the specification has the Execute step build and run one command line for every
  scenario with a non-empty list of selected workloads. The code joins the workload entries
  themselves (\<^verbatim>\<open>" ".join(workloads)\<close> on \<^verbatim>\<open>os.DirEntry\<close> objects), not their paths:
  whenever a workload is selected, the step raises \<open>TypeError\<close> for item 0 and leaves the
  world as it was, so no command is run.
\<close>

theorem workloads_raise_type_error:
  assumes "get_workloads e s w = (Inr all_workloads, w')"
    and "select_names (arg_workload a) all_workloads \<noteq> []"
  shows "execute_step e a s out_dir drivers w = (Inl (TypeError 0), w)"
proof -
  from assms(1) have "w' = w" by (rule get_workloads_world)
  with assms have "build_command e a s out_dir drivers w = (Inl (TypeError 0), w)"
    by (simp add: build_command_def io_bind_def str_join_strs str_join_entries)
  then show ?thesis by (simp add: execute_step_def io_bind_def)
qed

text \<open>
  C3 at a concrete input: the scenario with the one workload \<open>w\<close> ends \<open>main\<close> with
  \<open>TypeError\<close>, and no command has been run.
\<close>

theorem workloads_raise_type_error_witness:
  "fst (get_workloads (example_env 0) ''s'' world_one_workload) =
     Inr [\<lparr>de_name = ''w'', de_path = [''p'', ''hstream-kafka'', ''scenarios'', ''s'', ''workloads'', ''w''],
            de_is_file = True\<rparr>]
   \<and> execute_step (example_env 0) example_args ''s'' [''r'', ''s''] [] world_one_workload
       = (Inl (TypeError 0), world_one_workload)
   \<and> fst (main (example_env 0) example_args world_one_workload) = Inl (TypeError 0)
   \<and> ran (events (snd (main (example_env 0) example_args world_one_workload))) = []"
proof -
  let ?ws = "[\<lparr>de_name = ''w'', de_path = [''p'', ''hstream-kafka'', ''scenarios'', ''s'', ''workloads'', ''w''],
            de_is_file = True\<rparr>]"
  have f: "fst (get_workloads (example_env 0) ''s'' world_one_workload) = Inr ?ws" by code_simp
  then have h1: "get_workloads (example_env 0) ''s'' world_one_workload
      = (Inr ?ws, snd (get_workloads (example_env 0) ''s'' world_one_workload))" by (rule with_snd)
  have h2: "select_names (arg_workload example_args) ?ws \<noteq> []" by code_simp
  have m1: "fst (main (example_env 0) example_args world_one_workload) = Inl (TypeError 0)"
    by code_simp
  have m2: "ran (events (snd (main (example_env 0) example_args world_one_workload))) = []"
    by code_simp
  from workloads_raise_type_error [OF h1 h2] f m1 m2 show ?thesis by blast
qed

text \<open>
  C6: when the executor of a scenario ends with a non-zero status, \<open>main\<close> ends with
  \<open>CalledProcessError\<close> (exit status 1). The last effects of the whole run are the log
  line of the command and the run of the executor, followed only by the removal of the
  workspace: no directory is searched for results, before or after the executor, and no
  later scenario is processed.
\<close>

theorem failed_executor_stops_the_run:
  assumes gs: "get_scenarios e w_init = (Inr all_scenarios, w_start)"
    and ch: "(case arg_scenario a of
                None \<Rightarrow> all_scenarios
              | Some ss \<Rightarrow> if ss \<noteq> [] then ss else all_scenarios) = before @ s # later"
    and pre: "run_scenarios e a before w_start = (Inr (), w)"
    and mk: "mkdtemp e w = (Inr d, w0)"
    and st: "setup_step a s d w0 = (Inr out_dir, w1)"
    and rn: "render_step e a s d w1 = (Inr drivers, w2)"
    and bc: "build_command e a s out_dir drivers w2 = (Inr cmd, w3)"
    and sh: "shell e cmd (files w3) = (rc, fs')"
    and rc: "rc \<noteq> 0"
  shows "main e a w_init =
       (Inl (CalledProcessError rc cmd),
        \<lparr>files = rmtree d fs',
           events = events w3 @ [Printed (CHR 0x1B # ''[96m'' @ ''Run command: '' @ cmd @ CHR 0x1B # ''[0m''),
                                 Ran cmd]\<rparr>)
     \<and> globbed (events w3) = globbed (events w)
     \<and> ran (events w3) = ran (events w)
     \<and> exit_status (main e a w_init) = 1"
proof -
  define w4 where "w4 = snd (loginfo (''Run command: '' @ cmd) w3)"
  have lg: "loginfo (''Run command: '' @ cmd) w3 = (Inr (), w4)"
    by (simp add: w4_def loginfo_def py_print_def)
  have f4: "files w4 = files w3" by (simp add: w4_def loginfo_def py_print_def)
  let ?w5 = "\<lparr>files = fs', events = events w4 @ [Ran cmd]\<rparr>"
  have run: "subprocess_run e cmd w4 = (Inl (CalledProcessError rc cmd), ?w5)"
    using sh rc f4 by (simp add: subprocess_run_def)
  have ex: "execute_step e a s out_dir drivers w2 = (Inl (CalledProcessError rc cmd), ?w5)"
    unfolding execute_step_def using bc lg run by (simp add: io_bind_def)
  have body: "scenario_body e a s d w0 = (Inl (CalledProcessError rc cmd), ?w5)"
    unfolding scenario_body_def using st rn ex by (simp add: io_bind_def)
  have it: "scenario_iteration e a s w = (Inl (CalledProcessError rc cmd), cleanup d ?w5)"
    by (simp add: scenario_iteration_def with_tmpdir_def mk body)
  have all: "run_scenarios e a (before @ s # later) w_start =
      (Inl (CalledProcessError rc cmd), cleanup d ?w5)"
    using pre it by (simp add: run_scenarios_append io_bind_def)
  have m: "main e a w_init = (Inl (CalledProcessError rc cmd), cleanup d ?w5)"
    unfolding main_def using gs ch all by (simp add: io_bind_def)
  have e3: "globbed (events w3) = globbed (events w) \<and> ran (events w3) = ran (events w)"
    using keeps_logD [OF keeps_log_mkdtemp mk] keeps_logD [OF keeps_log_setup_step st]
      keeps_logD [OF keeps_log_render_step rn] keeps_logD [OF keeps_log_build_command bc]
    by simp
  have "cleanup d ?w5 =
      \<lparr>files = rmtree d fs',
         events = events w3 @ [Printed (CHR 0x1B # ''[96m'' @ ''Run command: '' @ cmd @ CHR 0x1B # ''[0m''),
                               Ran cmd]\<rparr>"
    by (simp add: cleanup_def w4_def loginfo_def py_print_def)
  with m e3 show ?thesis by (simp add: exit_status_def)
qed

text \<open>A witness of C6: a scenario without workloads, and a shell that ends with status 1.\<close>

theorem failed_executor_stops_the_run_witness:
  "get_scenarios (example_env 1) world_no_workloads = (Inr [''s''], world_no_workloads)
   \<and> build_command (example_env 1) example_args ''s'' [''r'', ''s'']
        [[''t'', ''kafka'', ''s'', ''drivers'', ''d''], [''t'', ''hstream'', ''s'', ''drivers'', ''d'']]
        (snd (render_step (example_env 1) example_args ''s'' [''t'']
           (snd (setup_step example_args ''s'' [''t''] (snd (mkdtemp (example_env 1) world_no_workloads))))))
      = (Inr ''bin/benchmark -d t/kafka/s/drivers/d,t/hstream/s/drivers/d -od r/s '',
         snd (render_step (example_env 1) example_args ''s'' [''t'']
           (snd (setup_step example_args ''s'' [''t''] (snd (mkdtemp (example_env 1) world_no_workloads))))))
   \<and> fst (main (example_env 1) example_args world_no_workloads)
      = Inl (CalledProcessError 1 ''bin/benchmark -d t/kafka/s/drivers/d,t/hstream/s/drivers/d -od r/s '')
   \<and> globbed (events (snd (main (example_env 1) example_args world_no_workloads))) = []
   \<and> ran (events (snd (main (example_env 1) example_args world_no_workloads)))
      = [''bin/benchmark -d t/kafka/s/drivers/d,t/hstream/s/drivers/d -od r/s '']
   \<and> exit_status (main (example_env 1) example_args world_no_workloads) = 1"
proof -
  let ?e = "example_env 1"
  let ?w = "world_no_workloads"
  let ?wa = "snd (mkdtemp ?e ?w)"
  let ?wb = "snd (setup_step example_args ''s'' [''t''] ?wa)"
  let ?wc = "snd (render_step ?e example_args ''s'' [''t''] ?wb)"
  let ?drivers = "[[''t'', ''kafka'', ''s'', ''drivers'', ''d''], [''t'', ''hstream'', ''s'', ''drivers'', ''d'']]"
  let ?cmd = "''bin/benchmark -d t/kafka/s/drivers/d,t/hstream/s/drivers/d -od r/s ''"
  have "fst (get_scenarios ?e ?w) = Inr [''s'']" by code_simp
  then have gs: "get_scenarios ?e ?w = (Inr [''s''], ?w)"
    using scandir_world [of "SCENARIO_DIR ?e" ?w]
    by (auto simp: get_scenarios_def io_bind_def io_return_def split: prod.splits sum.splits)
  have ch: "(case arg_scenario example_args of
                None \<Rightarrow> [''s'']
              | Some ss \<Rightarrow> if ss \<noteq> [] then ss else [''s'']) = [] @ ''s'' # []"
    by code_simp
  have pre: "run_scenarios ?e example_args [] ?w = (Inr (), ?w)" by (simp add: io_return_def)
  have "fst (mkdtemp ?e ?w) = Inr [''t'']" by code_simp
  then have mk: "mkdtemp ?e ?w = (Inr [''t''], ?wa)" by (rule with_snd)
  have "fst (setup_step example_args ''s'' [''t''] ?wa) = Inr [''r'', ''s'']" by code_simp
  then have st: "setup_step example_args ''s'' [''t''] ?wa = (Inr [''r'', ''s''], ?wb)"
    by (rule with_snd)
  have "fst (render_step ?e example_args ''s'' [''t''] ?wb) = Inr ?drivers" by code_simp
  then have rn: "render_step ?e example_args ''s'' [''t''] ?wb = (Inr ?drivers, ?wc)"
    by (rule with_snd)
  have "fst (build_command ?e example_args ''s'' [''r'', ''s''] ?drivers ?wc) = Inr ?cmd"
    by code_simp
  then have bc: "build_command ?e example_args ''s'' [''r'', ''s''] ?drivers ?wc = (Inr ?cmd, ?wc)"
    using keeps_log_build_command
    by (cases "build_command ?e example_args ''s'' [''r'', ''s''] ?drivers ?wc")
       (auto simp: build_command_def get_workloads_def io_bind_def io_return_def str_join_def io_raise_def Let_def
          split: prod.splits sum.splits if_splits dest!: scandir_world)
  have sh: "shell ?e ?cmd (files ?wc) = (1, files ?wc)" by (simp add: example_env_def)
  have rc: "(1::int) \<noteq> 0" by simp
  have ev: "globbed (events ?w) = [] \<and> ran (events ?w) = []" by (simp add: world_no_workloads_def)
  have ec: "events ?wc =
      [Wrote [''t'', ''kafka'', ''s'', ''drivers'', ''d''] ''n: kafka'',
       Wrote [''t'', ''hstream'', ''s'', ''drivers'', ''d''] ''n: hstream-kafka'']"
    by code_simp
  note run = failed_executor_stops_the_run [OF gs ch pre mk st rn bc sh rc]
  from run have ex: "exit_status (main ?e example_args ?w) = 1" by blast
  from run have "events (snd (main ?e example_args ?w)) =
      events ?wc @ [Printed (CHR 0x1B # ''[96m'' @ ''Run command: '' @ ?cmd @ CHR 0x1B # ''[0m''), Ran ?cmd]"
    by simp
  with ec have lg: "globbed (events (snd (main ?e example_args ?w))) = []"
    "ran (events (snd (main ?e example_args ?w))) = [?cmd]"
    by simp_all
  from run have fm: "fst (main ?e example_args ?w) = Inl (CalledProcessError 1 ?cmd)" by simp
  from gs bc fm lg ex show ?thesis by blast
qed

section \<open>The workspace\<close>

text \<open>
  C5: after a scenario iteration, whether its body returned or raised, nothing exists at or
  below the temporary directory created for it: no path there is in the file system, and
  none resolves.
\<close>

theorem workspace_is_removed:
  assumes "mkdtemp e w = (Inr d, w0)" and "scenario_iteration e a s w = (r, w')"
  shows "\<forall>q. prefix d q \<longrightarrow> node_at (files w') q = None \<and> (\<forall>n. resolve (files w') q \<noteq> Inr n)"
proof (intro allI impI)
  fix q assume pq: "prefix d q"
  from assms(1) have "d \<noteq> []" by (rule mkdtemp_not_root)
  with pq have q: "q \<noteq> []" by auto
  from assms have "files w' = rmtree d (files (snd (scenario_body e a s d w0)))"
    by (auto simp: scenario_iteration_def with_tmpdir_def cleanup_def split: prod.splits)
  with pq q have "node_at (files w') q = None" by (simp add: node_at_def map_of_rmtree)
  then show "node_at (files w') q = None \<and> (\<forall>n. resolve (files w') q \<noteq> Inr n)"
    using resolve_Inr by fastforce
qed

text \<open>
  A witness of C5: an iteration that raises after it has rendered both drivers, and one that
  returns.
\<close>

theorem workspace_is_removed_witness:
  "fst (scenario_iteration (example_env 0) example_args ''s'' world_one_workload) = Inl (TypeError 0)
   \<and> written (events (snd (scenario_iteration (example_env 0) example_args ''s'' world_one_workload)))
      = [[''t'', ''kafka'', ''s'', ''drivers'', ''d''], [''t'', ''hstream'', ''s'', ''drivers'', ''d'']]
   \<and> node_at (files (snd (scenario_iteration (example_env 0) example_args ''s'' world_one_workload)))
        [''t'', ''kafka'', ''s'', ''drivers'', ''d''] = None
   \<and> node_at (files (snd (scenario_iteration (example_env 0) example_args ''s'' world_one_workload)))
        [''t''] = None
   \<and> fst (scenario_iteration (example_env 0) example_args ''s'' world_no_workloads) = Inr ()
   \<and> node_at (files (snd (scenario_iteration (example_env 0) example_args ''s'' world_no_workloads)))
        [''t'', ''hstream'', ''s'', ''drivers'', ''d''] = None"
proof -
  let ?e = "example_env 0"
  have "fst (mkdtemp ?e world_one_workload) = Inr [''t'']" by code_simp
  then have mk1: "mkdtemp ?e world_one_workload = (Inr [''t''], snd (mkdtemp ?e world_one_workload))"
    by (rule with_snd)
  have f1: "fst (scenario_iteration ?e example_args ''s'' world_one_workload) = Inl (TypeError 0)"
    by code_simp
  then have it1: "scenario_iteration ?e example_args ''s'' world_one_workload
      = (Inl (TypeError 0), snd (scenario_iteration ?e example_args ''s'' world_one_workload))"
    by (rule with_snd)
  have wr: "written (events (snd (scenario_iteration ?e example_args ''s'' world_one_workload)))
      = [[''t'', ''kafka'', ''s'', ''drivers'', ''d''], [''t'', ''hstream'', ''s'', ''drivers'', ''d'']]"
    by code_simp
  have "fst (mkdtemp ?e world_no_workloads) = Inr [''t'']" by code_simp
  then have mk2: "mkdtemp ?e world_no_workloads = (Inr [''t''], snd (mkdtemp ?e world_no_workloads))"
    by (rule with_snd)
  have f2: "fst (scenario_iteration ?e example_args ''s'' world_no_workloads) = Inr ()"
    by code_simp
  then have it2: "scenario_iteration ?e example_args ''s'' world_no_workloads
      = (Inr (), snd (scenario_iteration ?e example_args ''s'' world_no_workloads))"
    by (rule with_snd)
  from workspace_is_removed [OF mk1 it1] workspace_is_removed [OF mk2 it2] f1 f2 wr
  show ?thesis by simp
qed

section \<open>Result artifacts\<close>

text \<open>
  C8, as the specification states it: \<open>get_results\<close> returns exactly the files directly
  inside the output directory whose name ends in \<^verbatim>\<open>.json\<close>. It leaves a hidden file
  \<^verbatim>\<open>.h.json\<close> out, and it returns a directory named \<^verbatim>\<open>sub.json\<close>.
\<close>

theorem hidden_files_and_directories:
  "fst (get_results [''r''] results_hidden) = Inr [[''r'', ''a.json''], [''r'', ''sub.json'']]
   \<and> [''r'', ''.h.json''] \<in> json_files (files results_hidden) [''r'']
   \<and> [''r'', ''sub.json''] \<notin> json_files (files results_hidden) [''r'']
   \<and> set [[''r'', ''a.json''], [''r'', ''sub.json'']] \<noteq> json_files (files results_hidden) [''r'']"
proof -
  have 1: "fst (get_results [''r''] results_hidden) = Inr [[''r'', ''a.json''], [''r'', ''sub.json'']]"
    by code_simp
  have 2: "[''r'', ''.h.json''] \<in> json_files (files results_hidden) [''r'']"
    by (simp add: json_files_def results_hidden_def endswith_def)
  have 3: "[''r'', ''sub.json''] \<notin> json_files (files results_hidden) [''r'']"
    by (simp add: json_files_def results_hidden_def endswith_def)
  from 1 2 3 show ?thesis by auto
qed

text \<open>
  C8, amended: for an output directory without glob pattern characters in its path,
  \<open>get_results\<close> never fails and returns exactly the entries directly inside it, files and
  directories alike, whose name ends in \<^verbatim>\<open>.json\<close> and does not start with a dot; it
  returns nothing when the directory cannot be listed. For a directory with \<^verbatim>\<open>a.json\<close>,
  \<^verbatim>\<open>b.json\<close> and \<^verbatim>\<open>c.txt\<close> it returns \<^verbatim>\<open>a.json\<close> and \<^verbatim>\<open>b.json\<close>.
\<close>

theorem get_results_lists_json_entries:
  "(\<not> has_magic out_dir \<longrightarrow>
     (\<exists>ps. get_results out_dir w = (Inr ps, w\<lparr>events := events w @ [Globbed out_dir]\<rparr>)
        \<and> set ps = (if resolve (files w) out_dir = Inr Dir
                    then {p. p \<in> fst ` set (files w) \<and> p \<noteq> [] \<and> butlast p = out_dir
                             \<and> endswith (last p) ''.json'' \<and> \<not> startswith (last p) ''.''}
                    else {})))
   \<and> fst (get_results [''r''] results_example) = Inr [[''r'', ''a.json''], [''r'', ''b.json'']]"
proof (intro conjI impI)
  show "fst (get_results [''r''] results_example) = Inr [[''r'', ''a.json''], [''r'', ''b.json'']]"
    by code_simp
next
  show "\<exists>ps. get_results out_dir w = (Inr ps, w\<lparr>events := events w @ [Globbed out_dir]\<rparr>)
        \<and> set ps = (if resolve (files w) out_dir = Inr Dir
                    then {p. p \<in> fst ` set (files w) \<and> p \<noteq> [] \<and> butlast p = out_dir
                             \<and> endswith (last p) ''.json'' \<and> \<not> startswith (last p) ''.''}
                    else {})"
  proof (cases "resolve (files w) out_dir = Inr Dir")
    case True
    have "{out_dir @ [n] |n. n \<in> last ` {q. q \<in> fst ` set (files w) \<and> q \<noteq> [] \<and> butlast q = out_dir}
             \<and> endswith n ''.json'' \<and> \<not> startswith n ''.''}
        = {p. p \<in> fst ` set (files w) \<and> p \<noteq> [] \<and> butlast p = out_dir
                             \<and> endswith (last p) ''.json'' \<and> \<not> startswith (last p) ''.''}"
      (is "?A = ?B")
    proof (intro equalityI subsetI)
      fix p assume "p \<in> ?A"
      then obtain q where q: "q \<in> fst ` set (files w)" "q \<noteq> []" "butlast q = out_dir"
        "p = out_dir @ [last q]" "endswith (last q) ''.json''" "\<not> startswith (last q) ''.''"
        by auto
      then have "p = q" using append_butlast_last_id [of q] by simp
      with q show "p \<in> ?B" by simp
    next
      fix p assume "p \<in> ?B"
      then have "p = out_dir @ [last p]" using append_butlast_last_id [of p] by auto
      with \<open>p \<in> ?B\<close> show "p \<in> ?A" by blast
    qed
    moreover have "set (map (\<lambda>n. out_dir @ [n])
                (filter fnmatch_json (filter (\<lambda>n. \<not> startswith n ''.'')
                   (map de_name (children (files w) out_dir))))) = ?A"
      by (force simp: children_def fnmatch_json_def image_iff)
    ultimately show ?thesis using True
      by (simp add: get_results_def glob_json_def scandir_def Let_def)
  next
    case False
    then show ?thesis
      by (auto simp: get_results_def glob_json_def scandir_def Let_def split: sum.splits node.splits)
  qed
qed

text \<open>A witness of C8 at the example directory.\<close>

theorem get_results_lists_json_entries_witness:
  "\<not> has_magic [''r'']
   \<and> resolve (files results_example) [''r''] = Inr Dir
   \<and> (\<exists>ps. get_results [''r''] results_example
            = (Inr ps, results_example\<lparr>events := events results_example @ [Globbed [''r'']]\<rparr>)
        \<and> set ps = {p. p \<in> fst ` set (files results_example) \<and> p \<noteq> [] \<and> butlast p = [''r'']
                       \<and> endswith (last p) ''.json'' \<and> \<not> startswith (last p) ''.''})
   \<and> fst (get_results [''r''] results_example) = Inr [[''r'', ''a.json''], [''r'', ''b.json'']]"
proof -
  have m: "\<not> has_magic [''r'']" by (simp add: has_magic_def)
  have r: "resolve (files results_example) [''r''] = Inr Dir" by code_simp
  from get_results_lists_json_entries [of "[''r'']" results_example] m r
  show ?thesis by simp
qed

section \<open>Determinism of rendering\<close>

text \<open>
  C9: the rendered content is determined by the template's content and the override map.
  Two renderings of templates with the same content under the same map, in any two worlds,
  for any scenario names and target directories, leave the same text in their output
  files: the template's content with the overrides applied.
\<close>

theorem rendering_depends_on_content_and_map_only:
  assumes "resolve (files w1) (de_path t1) = Inr (File c)"
    and "resolve (files w2) (de_path t2) = Inr (File c)"
    and "setup_drivers [t1] s1 g1 ovr w1 = (Inr ps1, w1')"
    and "setup_drivers [t2] s2 g2 ovr w2 = (Inr ps2, w2')"
  shows "ps1 = [g1 @ [s1, ''drivers'', de_name t1]] \<and> ps2 = [g2 @ [s2, ''drivers'', de_name t2]]
     \<and> read_text (g1 @ [s1, ''drivers'', de_name t1]) w1' = (Inr (apply_overrides ovr c), w1')
     \<and> read_text (g2 @ [s2, ''drivers'', de_name t2]) w2' = (Inr (apply_overrides ovr c), w2')"
proof -
  have one: "ps = [g @ [s, ''drivers'', de_name t]]
      \<and> read_text (g @ [s, ''drivers'', de_name t]) w' = (Inr (apply_overrides ovr c), w')"
    if t: "resolve (files w) (de_path t) = Inr (File c)"
      and sd: "setup_drivers [t] s g ovr w = (Inr ps, w')"
    for t s g w ps w'
  proof -
    from sd obtain wa c' where mk: "py_mkdir (g @ [s, ''drivers'']) w = (Inr (), wa)"
      and rd: "read_text (de_path t) wa = (Inr c', wa)"
      and wr: "write_text (g @ [s, ''drivers'', de_name t]) (apply_overrides ovr c') wa = (Inr (), w')"
      and ps: "ps = [g @ [s, ''drivers'', de_name t]]"
      by (auto simp: setup_drivers_def io_bind_def io_return_def Let_def
          split: prod.splits sum.splits dest: read_text_world)
    from py_mkdir_keeps [OF mk t] rd have "c' = c" by (simp add: read_text_def)
    with read_after_write [OF wr] ps show ?thesis by (simp add: read_text_def)
  qed
  from one [OF assms(1) assms(3)] one [OF assms(2) assms(4)] show ?thesis by simp
qed

text \<open>A witness of C9: the same template text in two different worlds.\<close>

theorem rendering_depends_on_content_and_map_only_witness:
  "resolve (files world_no_workloads) [''p'', ''hstream-kafka'', ''scenarios'', ''s'', ''driver-tmpls'', ''d'']
     = Inr (File ''n: __NAME__'')
   \<and> resolve (files world_single_file) [''x''] = Inr (File ''n: __NAME__'')
   \<and> fst (read_text [''t'', ''s'', ''drivers'', ''d'']
        (snd (setup_drivers
          [\<lparr>de_name = ''d'', de_path = [''p'', ''hstream-kafka'', ''scenarios'', ''s'', ''driver-tmpls'', ''d''],
             de_is_file = True\<rparr>] ''s'' [''t''] (kafka_driver_overrides example_args) world_no_workloads)))
     = Inr ''n: kafka''
   \<and> fst (read_text [''g'', ''other'', ''drivers'', ''y'']
        (snd (setup_drivers [\<lparr>de_name = ''y'', de_path = [''x''], de_is_file = True\<rparr>] ''other'' [''g'']
           (kafka_driver_overrides example_args) world_single_file)))
     = Inr ''n: kafka''"
proof -
  let ?ta = "\<lparr>de_name = ''d'', de_path = [''p'', ''hstream-kafka'', ''scenarios'', ''s'', ''driver-tmpls'', ''d''],
             de_is_file = True\<rparr>"
  let ?tb = "\<lparr>de_name = ''y'', de_path = [''x''], de_is_file = True\<rparr>"
  let ?m = "kafka_driver_overrides example_args"
  have r1: "resolve (files world_no_workloads) (de_path ?ta) = Inr (File ''n: __NAME__'')" by code_simp
  have r2: "resolve (files world_single_file) (de_path ?tb) = Inr (File ''n: __NAME__'')" by code_simp
  have "fst (setup_drivers [?ta] ''s'' [''t''] ?m world_no_workloads) = Inr [[''t'', ''s'', ''drivers'', ''d'']]"
    by code_simp
  then have s1: "setup_drivers [?ta] ''s'' [''t''] ?m world_no_workloads
      = (Inr [[''t'', ''s'', ''drivers'', ''d'']], snd (setup_drivers [?ta] ''s'' [''t''] ?m world_no_workloads))"
    by (rule with_snd)
  have "fst (setup_drivers [?tb] ''other'' [''g''] ?m world_single_file) = Inr [[''g'', ''other'', ''drivers'', ''y'']]"
    by code_simp
  then have s2: "setup_drivers [?tb] ''other'' [''g''] ?m world_single_file
      = (Inr [[''g'', ''other'', ''drivers'', ''y'']], snd (setup_drivers [?tb] ''other'' [''g''] ?m world_single_file))"
    by (rule with_snd)
  have ao: "apply_overrides ?m ''n: __NAME__'' = ''n: kafka''" by code_simp
  from rendering_depends_on_content_and_map_only [OF r1 r2 s1 s2] r1 r2 ao
  show ?thesis by simp
qed

end
